theory Spec2Isabelle
  imports Complex_Main
begin

section \<open>JavaScript values used by the prediction route\<close>

text \<open>
  A JavaScript Number is an IEEE double. The route only compares numbers, rounds them
  with \<open>Math.round\<close> and clamps them, and all of these are exact on the value a double
  stands for, so a Number is modelled as the real it denotes, or one of the three
  special values. \<open>-0\<close> and \<open>+0\<close> are the same \<open>Fin 0\<close>: they compare equal in
  JavaScript. The only rounding arithmetic of the route (the centroid of the camera
  network) is kept as a parameter of the environment below.
\<close>

datatype jsnum = NaN | NegInf | Fin real | PosInf

text \<open>The operator \<open>a > b\<close> on Numbers: false as soon as one side is \<open>NaN\<close>.\<close>

fun js_gt :: "jsnum \<Rightarrow> jsnum \<Rightarrow> bool" where
  "js_gt NaN b = False"
| "js_gt a NaN = False"
| "js_gt (Fin x) (Fin y) = (y < x)"
| "js_gt PosInf PosInf = False"
| "js_gt PosInf b = True"
| "js_gt a PosInf = False"
| "js_gt NegInf b = False"
| "js_gt (Fin x) NegInf = True"

text \<open>
  \<open>Math.round\<close>: the nearest integer, a tie going towards \<open>+\<infinity>\<close>; \<open>NaN\<close> and the
  infinities are returned as they are.
\<close>

fun Math_round :: "jsnum \<Rightarrow> jsnum" where
  "Math_round (Fin x) = Fin (of_int \<lfloor>x + 1 / 2\<rfloor>)"
| "Math_round v = v"

text \<open>\<open>Math.min\<close> and \<open>Math.max\<close> of two arguments: \<open>NaN\<close> if either is \<open>NaN\<close>.\<close>

definition Math_min :: "jsnum \<Rightarrow> jsnum \<Rightarrow> jsnum" where
  "Math_min a b = (if a = NaN \<or> b = NaN then NaN else if js_gt a b then b else a)"

definition Math_max :: "jsnum \<Rightarrow> jsnum \<Rightarrow> jsnum" where
  "Math_max a b = (if a = NaN \<or> b = NaN then NaN else if js_gt a b then a else b)"

text \<open>
  Rounding of a real to a binary floating-point format with precision \<open>p\<close> and exponent
  range \<open>emin .. emax\<close>: to the nearest representable value, a tie going to the even
  significand, subnormal below \<open>2^emin\<close>, and an infinity once the rounded value
  reaches \<open>2^(emax+1)\<close>.
\<close>

definition round_half_even :: "real \<Rightarrow> int" where
  "round_half_even q =
     (let f = \<lfloor>q\<rfloor>; d = q - of_int f in
      if d < 1 / 2 then f else if 1 / 2 < d then f + 1 else if even f then f else f + 1)"

definition round_binary :: "nat \<Rightarrow> int \<Rightarrow> int \<Rightarrow> real \<Rightarrow> jsnum" where
  "round_binary p emin emax x =
     (if x = 0 then Fin 0
      else
        let e = max emin \<lfloor>log 2 \<bar>x\<bar>\<rfloor>;
            u = 2 powi (e - (int p - 1));
            r = of_int (round_half_even (x / u)) * u
        in if 2 ^ nat (emax + 1) \<le> \<bar>r\<bar> then (if 0 < x then PosInf else NegInf) else Fin r)"

text \<open>The Number nearest to a real (a double), and \<open>Math.fround\<close> (single precision).\<close>

definition to_double :: "real \<Rightarrow> jsnum" where
  "to_double x = round_binary 53 (- 1022) 1023 x"

definition fround :: "jsnum \<Rightarrow> jsnum" where
  "fround v = (case v of Fin x \<Rightarrow> round_binary 24 (- 126) 127 x | _ \<Rightarrow> v)"

text \<open>\<open>Float32Array.from(numbers)\<close>: every entry rounded to single precision.\<close>

definition Float32Array_from :: "jsnum list \<Rightarrow> jsnum list" where
  "Float32Array_from numbers = map fround numbers"

text \<open>
  A thrown value: an \<open>Error\<close> object with its name and message, \<open>null\<close>,
  \<open>undefined\<close>, or any other value that has no truthy \<open>message\<close> property (a string,
  a number, a plain object), given by what \<open>String\<close> makes of it.
\<close>

datatype exn =
    Exn (exn_name: string) (exn_message: string)
  | Thrown_null
  | Thrown_undefined
  | Thrown_value string

text \<open>\<open>String(err)\<close>; for an \<open>Error\<close> object this is \<open>Error.prototype.toString\<close>.\<close>

fun String_of :: "exn \<Rightarrow> string" where
  "String_of (Exn n m) = (if n = [] then m else if m = [] then n else n @ '': '' @ m)"
| "String_of Thrown_null = ''null''"
| "String_of Thrown_undefined = ''undefined''"
| "String_of (Thrown_value s) = s"

text \<open>
  A JavaScript string as its UTF-16 code units, for the strings whose characters the
  route inspects (the query values); \<open>code_units\<close> gives those of an ASCII text.
\<close>

type_synonym jsstring = "nat list"

definition code_units :: "string \<Rightarrow> jsstring" where
  "code_units text = map of_char text"

text \<open>
  \<open>await p\<close> followed by the rest of the function: a rejected promise (or a throw)
  leaves the enclosing block with the thrown value.
\<close>

definition await :: "exn + 'a \<Rightarrow> ('a \<Rightarrow> exn + 'b) \<Rightarrow> exn + 'b" where
  "await p k = (case p of Inl e \<Rightarrow> Inl e | Inr v \<Rightarrow> k v)"

section \<open>The ONNX runtime, as far as \<open>runInference\<close> uses it\<close>

record tensor =
  tensor_type :: string
  tensor_data :: "jsnum list"
  dims :: "nat list"

text \<open>
  \<open>new onnx.Tensor(type, data, dims)\<close> on a typed array \<open>data\<close>: it throws when the
  number of elements does not match the shape.
\<close>

definition new_Tensor :: "string \<Rightarrow> jsnum list \<Rightarrow> nat list \<Rightarrow> exn + tensor" where
  "new_Tensor ty d ds =
     (if prod_list ds = length d
      then Inr \<lparr>tensor_type = ty, tensor_data = d, dims = ds\<rparr>
      else Inl (Exn ''Error'' ''Tensor size does not match data length''))"

text \<open>
  A session: its input and output names and what \<open>session.run(feeds)\<close> does on a
  one-entry feeds object, which is either to reject or to resolve to an object mapping
  output names to the \<open>data\<close> of their tensors. Each entry of \<open>data\<close> is given as the
  Number that \<open>Number(outputData[idx])\<close> yields (the element itself, or the value of a
  BigInt element).
\<close>

record session =
  inputNames :: "string list"
  outputNames :: "string list"
  run :: "string \<times> tensor \<Rightarrow> exn + (string \<rightharpoonup> jsnum list)"

text \<open>
  \<open>names[0]\<close> used as a property key: \<open>undefined\<close> becomes the key \<open>"undefined"\<close> when
  the array is empty.
\<close>

definition key0 :: "string list \<Rightarrow> string" where
  "key0 names = (case names of [] \<Rightarrow> ''undefined'' | n # _ \<Rightarrow> n)"

section \<open>\<open>runInference\<close>\<close>

record inferenceResult =
  congestion :: jsnum
  probability :: jsnum

text \<open>\<open>getVal\<close>: \<open>Number(outputData[idx])\<close>, which is \<open>NaN\<close> past the end of the array.\<close>

definition getVal :: "jsnum list \<Rightarrow> nat \<Rightarrow> jsnum" where
  "getVal outputData idx = (if idx < length outputData then outputData ! idx else NaN)"

text \<open>The \<open>for\<close> loop of the multi-class branch, from index \<open>i\<close> on.\<close>

function argmax_loop :: "jsnum list \<Rightarrow> nat \<Rightarrow> nat \<Rightarrow> jsnum \<Rightarrow> nat \<times> jsnum" where
  "argmax_loop outputData i maxIdx maxVal =
     (if i < length outputData
      then (if js_gt (getVal outputData i) maxVal
            then argmax_loop outputData (i + 1) i (getVal outputData i)
            else argmax_loop outputData (i + 1) maxIdx maxVal)
      else (maxIdx, maxVal))"
  by pat_completeness auto
termination
  by (relation "measure (\<lambda>(outputData, i, maxIdx, maxVal). length outputData - i)") auto

declare argmax_loop.simps [simp del]

text \<open>The decoding of the output data: the \<open>if\<close>/\<open>else\<close> after \<open>getVal\<close>.\<close>

definition decode :: "jsnum list \<Rightarrow> inferenceResult" where
  "decode outputData =
     (if 3 \<le> length outputData
      then (case argmax_loop outputData 1 0 (getVal outputData 0) of
              (maxIdx, maxVal) \<Rightarrow> \<lparr>congestion = Fin (real maxIdx), probability = maxVal\<rparr>)
      else \<lparr>congestion = Math_max (Fin 0) (Math_min (Fin 2) (Math_round (getVal outputData 0))),
            probability = Fin 1\<rparr>)"

text \<open>
  The first half of the \<open>try\<close> block, up to \<open>outputData\<close>: the input tensor, the
  run of the session and the data of its first output. Reading \<open>.data\<close> of a missing
  output is a \<open>TypeError\<close>.
\<close>

definition session_output :: "session \<Rightarrow> jsnum list \<Rightarrow> exn + jsnum list" where
  "session_output session inputData =
     await (new_Tensor ''float32'' (Float32Array_from inputData) [1, 8]) (\<lambda>inputTensor.
     await (run session (key0 (inputNames session), inputTensor)) (\<lambda>output.
       case output (key0 (outputNames session)) of
         None \<Rightarrow> Inl (Exn ''TypeError'' ''Cannot read properties of undefined'')
       | Some outputData \<Rightarrow> Inr outputData))"

text \<open>The whole body of the \<open>try\<close> block.\<close>

definition runInference_try :: "session \<Rightarrow> jsnum list \<Rightarrow> exn + inferenceResult" where
  "runInference_try session inputData =
     await (session_output session inputData) (\<lambda>outputData. Inr (decode outputData))"

text \<open>
  \<open>runInference\<close>: the \<open>try\<close> block with its \<open>catch\<close>, which logs and returns the
  fallback. The result type leaves room for a throw, so that not raising is a property.
\<close>

definition runInference :: "session \<Rightarrow> jsnum list \<Rightarrow> exn + inferenceResult" where
  "runInference session inputData =
     (case runInference_try session inputData of
        Inl e \<Rightarrow> Inr \<lparr>congestion = Fin 0, probability = Fin 0\<rparr>
      | Inr r \<Rightarrow> Inr r)"

text \<open>
  A session for concrete checks: one input, one output, and a run that resolves to the
  given output data whatever the input.
\<close>

definition const_session :: "jsnum list \<Rightarrow> session" where
  "const_session out =
     \<lparr>inputNames = [''input''], outputNames = [''output''],
      run = (\<lambda>feeds. Inr [''output'' \<mapsto> out])\<rparr>"

text \<open>A session whose run rejects.\<close>

definition failing_session :: "exn \<Rightarrow> session" where
  "failing_session e =
     \<lparr>inputNames = [''input''], outputNames = [''output''], run = (\<lambda>feeds. Inl e)\<rparr>"

text \<open>A session whose run resolves to an object without any output.\<close>

definition no_output_session :: session where
  "no_output_session =
     \<lparr>inputNames = [''input''], outputNames = [''output''], run = (\<lambda>feeds. Inr Map.empty)\<rparr>"

text \<open>A feature vector of eight numbers for concrete checks, and one that is too short.\<close>

definition features_short :: "jsnum list" where
  "features_short = [Fin 24.86, Fin 67.01, Fin 9]"

definition features0 :: "jsnum list" where
  "features0 = [Fin 24.86, Fin 67.01, Fin 9, Fin 1, Fin 30, Fin 0, Fin 0, Fin 12]"

section \<open>Collaborators of the route\<close>

record cameraLocation =
  name :: string
  latitude :: jsnum
  longitude :: jsnum

record weatherData =
  temperature_2m :: jsnum
  precipitation :: jsnum
  rain :: jsnum
  wind_speed_10m :: jsnum

text \<open>The value of \<open>getCurrentTimeInfo()\<close>, with its fields \<open>hour\<close> and \<open>day\<close>.\<close>

record timeInfo =
  timeInfo_hour :: jsnum
  timeInfo_day :: jsnum

type_synonym buffer = "nat list"

text \<open>
  What a request sees outside the module: the configured locations, the clock, the
  weather provider, the working directory, Node's \<open>path.join\<close> and file system, the
  runtime's session constructor, and the floating-point addition and division used for
  the centroid. Where both promises of a
  \<open>Promise.all\<close> reject, the flag says whether the second one rejects first.
\<close>

record env =
  cameraLocations :: "cameraLocation list"
  getCurrentTimeInfo :: timeInfo
  getWeatherForTime :: "jsnum \<Rightarrow> jsnum \<Rightarrow> jsnum \<Rightarrow> jsnum \<Rightarrow> exn + weatherData"
  num_add :: "jsnum \<Rightarrow> jsnum \<Rightarrow> jsnum"
  num_div :: "jsnum \<Rightarrow> jsnum \<Rightarrow> jsnum"
  cwd :: string
  path_join :: "string list \<Rightarrow> string"
  readFile :: "string \<Rightarrow> exn + buffer"
  readFile_second_first :: bool
  InferenceSession_create :: "buffer \<Rightarrow> exn + session"
  create_second_first :: bool
  now_toISOString :: string

text \<open>The query string: \<open>searchParams.get(key)\<close> is a string or \<open>null\<close>.\<close>

record request =
  searchParams :: "string \<rightharpoonup> jsstring"

section \<open>The session cache\<close>

text \<open>
  The module variable \<open>sessions\<close>, and a count of the load attempts made so far, which
  the code does not keep: it is there to state how often the artifacts are loaded.
\<close>

record session_cache =
  stage1 :: "session option"
  stage2 :: "session option"

record module_state =
  sessions :: session_cache
  loads :: nat

definition initial_state :: module_state where
  "initial_state = \<lparr>sessions = \<lparr>stage1 = None, stage2 = None\<rparr>, loads = 0\<rparr>"

text \<open>\<open>Promise.all\<close> of two promises: both values, or the rejection that comes first.\<close>

definition Promise_all2 :: "bool \<Rightarrow> exn + 'a \<Rightarrow> exn + 'b \<Rightarrow> exn + ('a \<times> 'b)" where
  "Promise_all2 second_first p q =
     (case p of
        Inl e1 \<Rightarrow> (case q of Inl e2 \<Rightarrow> Inl (if second_first then e2 else e1) | Inr b \<Rightarrow> Inl e1)
      | Inr a \<Rightarrow> (case q of Inl e2 \<Rightarrow> Inl e2 | Inr b \<Rightarrow> Inr (a, b)))"

definition modelPath1 :: "env \<Rightarrow> string" where
  "modelPath1 env = path_join env [cwd env, ''public'', ''models'', ''model_stage1.onnx'']"

definition modelPath2 :: "env \<Rightarrow> string" where
  "modelPath2 env = path_join env [cwd env, ''public'', ''models'', ''model_stage2.onnx'']"

text \<open>
  \<open>getSessions\<close>. A session object is truthy and \<open>null\<close> is not. The \<open>catch\<close> logs
  and rethrows.
\<close>

definition getSessions :: "env \<Rightarrow> module_state \<Rightarrow> (exn + session_cache) \<times> module_state" where
  "getSessions env st =
     (if stage1 (sessions st) \<noteq> None \<and> stage2 (sessions st) \<noteq> None then (Inr (sessions st), st)
      else
        let st1 = st\<lparr>loads := loads st + 1\<rparr> in
        case Promise_all2 (readFile_second_first env)
               (readFile env (modelPath1 env)) (readFile env (modelPath2 env)) of
          Inl e \<Rightarrow> (Inl e, st1)
        | Inr (buffer1, buffer2) \<Rightarrow>
            (case Promise_all2 (create_second_first env)
                    (InferenceSession_create env buffer1) (InferenceSession_create env buffer2) of
               Inl e \<Rightarrow> (Inl e, st1)
             | Inr (session1, session2) \<Rightarrow>
                 (Inr \<lparr>stage1 = Some session1, stage2 = Some session2\<rparr>,
                  st1\<lparr>sessions := \<lparr>stage1 = Some session1, stage2 = Some session2\<rparr>\<rparr>)))"

section \<open>\<open>parseInt\<close>\<close>

text \<open>
  \<open>parseInt(string)\<close> with no radix, as the language standard gives it: leading white
  space (\<open>StrWhiteSpaceChar\<close>) is skipped, a sign is read, a \<open>0x\<close> or \<open>0X\<close> prefix
  selects radix 16, and the longest prefix of digits is the value, rounded to a Number;
  with no digit the result is \<open>NaN\<close>. The standard lets an engine approximate a decimal
  value beyond its 20th significant digit; the model rounds the exact value.
\<close>

definition is_StrWhiteSpaceChar :: "nat \<Rightarrow> bool" where
  "is_StrWhiteSpaceChar c =
     (c \<in> {9, 10, 11, 12, 13, 32, 160, 5760, 8232, 8233, 8239, 8287, 12288, 65279}
      \<or> (8192 \<le> c \<and> c \<le> 8202))"

definition digit_value :: "nat \<Rightarrow> nat option" where
  "digit_value c =
     (if 48 \<le> c \<and> c \<le> 57 then Some (c - 48)
      else if 97 \<le> c \<and> c \<le> 122 then Some (c - 87)
      else if 65 \<le> c \<and> c \<le> 90 then Some (c - 55)
      else None)"

definition is_digit_in :: "nat \<Rightarrow> nat \<Rightarrow> bool" where
  "is_digit_in R c = (case digit_value c of None \<Rightarrow> False | Some v \<Rightarrow> v < R)"

definition digits_value :: "nat \<Rightarrow> jsstring \<Rightarrow> nat" where
  "digits_value R Z =
     foldl (\<lambda>acc c. case digit_value c of None \<Rightarrow> acc | Some v \<Rightarrow> acc * R + v) 0 Z"

text \<open>The steps after the sign: the radix, the digits and their value, if there is a digit.\<close>

definition parse_magnitude :: "jsstring \<Rightarrow> nat option" where
  "parse_magnitude S1 =
     (let hex = (take 2 S1 = [48, 120] \<or> take 2 S1 = [48, 88]);
          R = (if hex then 16 else 10);
          S2 = (if hex then drop 2 S1 else S1);
          Z = takeWhile (is_digit_in R) S2
      in if Z = [] then None else Some (digits_value R Z))"

definition parseInt :: "jsstring \<Rightarrow> jsnum" where
  "parseInt string =
     (let S = dropWhile is_StrWhiteSpaceChar string;
          sign = (if S \<noteq> [] \<and> hd S = 45 then - 1 else 1 :: int);
          S1 = (if S \<noteq> [] \<and> (hd S = 43 \<or> hd S = 45) then tl S else S)
      in case parse_magnitude S1 of
           None \<Rightarrow> NaN
         | Some mathInt \<Rightarrow> to_double (of_int (sign * int mathInt)))"

text \<open>The sign that a sign prefix (empty, \<open>+\<close> or \<open>-\<close>) stands for.\<close>

definition sign_of :: "jsstring \<Rightarrow> int" where
  "sign_of sg = (if sg = [45] then - 1 else 1)"

section \<open>The route handler \<open>GET\<close>\<close>

text \<open>
  \<open>custom ? parseInt(custom) : current\<close>: \<open>null\<close> and the empty string are falsy, every
  other string is truthy.
\<close>

definition custom_or_current :: "jsstring option \<Rightarrow> jsnum \<Rightarrow> jsnum" where
  "custom_or_current custom current =
     (case custom of None \<Rightarrow> current | Some s \<Rightarrow> if s = [] then current else parseInt s)"

definition resolved_hour :: "env \<Rightarrow> request \<Rightarrow> jsnum" where
  "resolved_hour env request =
     custom_or_current (searchParams request ''hour'') (timeInfo_hour (getCurrentTimeInfo env))"

definition resolved_day :: "env \<Rightarrow> request \<Rightarrow> jsnum" where
  "resolved_day env request =
     custom_or_current (searchParams request ''day'') (timeInfo_day (getCurrentTimeInfo env))"

text \<open>The centre of the camera network: the two \<open>reduce\<close> sums divided by the length.\<close>

definition centerLat :: "env \<Rightarrow> jsnum" where
  "centerLat env =
     num_div env (foldl (\<lambda>sum loc. num_add env sum (latitude loc)) (Fin 0) (cameraLocations env))
       (Fin (real (length (cameraLocations env))))"

definition centerLng :: "env \<Rightarrow> jsnum" where
  "centerLng env =
     num_div env (foldl (\<lambda>sum loc. num_add env sum (longitude loc)) (Fin 0) (cameraLocations env))
       (Fin (real (length (cameraLocations env))))"

text \<open>The call \<open>getWeatherForTime(centerLat, centerLng, hour, day)\<close> of a request.\<close>

definition weather_call :: "env \<Rightarrow> request \<Rightarrow> exn + weatherData" where
  "weather_call env request =
     getWeatherForTime env (centerLat env) (centerLng env)
       (resolved_hour env request) (resolved_day env request)"

text \<open>The array \<open>inputData\<close> built for one location.\<close>

definition feature_vector :: "cameraLocation \<Rightarrow> jsnum \<Rightarrow> jsnum \<Rightarrow> weatherData \<Rightarrow> jsnum list" where
  "feature_vector location hour day weather =
     [latitude location, longitude location, hour, day,
      temperature_2m weather, precipitation weather, rain weather, wind_speed_10m weather]"

text \<open>The array \<open>results\<close>: one push per handle that is not \<open>null\<close>, stage 1 first.\<close>

definition run_models :: "session_cache \<Rightarrow> jsnum list \<Rightarrow> exn + inferenceResult list" where
  "run_models ss inputData =
     await (case stage1 ss of None \<Rightarrow> Inr []
            | Some s1 \<Rightarrow> await (runInference s1 inputData) (\<lambda>r. Inr [r])) (\<lambda>results.
     case stage2 ss of None \<Rightarrow> Inr results
     | Some s2 \<Rightarrow> await (runInference s2 inputData) (\<lambda>r. Inr (results @ [r])))"

text \<open>The callback of \<open>results.reduce\<close>, and \<open>reduce\<close> without an initial value.\<close>

definition pick :: "inferenceResult \<Rightarrow> inferenceResult \<Rightarrow> inferenceResult" where
  "pick prev current = (if js_gt (congestion current) (congestion prev) then current else prev)"

definition reduce :: "('a \<Rightarrow> 'a \<Rightarrow> 'a) \<Rightarrow> 'a list \<Rightarrow> exn + 'a" where
  "reduce f xs =
     (case xs of
        [] \<Rightarrow> Inl (Exn ''TypeError'' ''Reduce of empty array with no initial value'')
      | x # rest \<Rightarrow> Inr (foldl f x rest))"

text \<open>
  Modelled from the spec: \<open>CONGESTION_LABELS\<close> of \<open>lib/types\<close> is not among the
  sources; the spec names the levels Low = 0, Moderate = 1, High = 2. Any other index
  reads \<open>undefined\<close>.
\<close>

definition CONGESTION_LABELS :: "jsnum \<Rightarrow> string option" where
  "CONGESTION_LABELS c =
     (if c = Fin 0 then Some ''Low'' else if c = Fin 1 then Some ''Moderate''
      else if c = Fin 2 then Some ''High'' else None)"

record predictionResult =
  p_location :: string
  p_latitude :: jsnum
  p_longitude :: jsnum
  p_congestion :: jsnum
  p_congestionLabel :: "string option"
  p_probability :: jsnum

text \<open>The body of the \<open>for\<close> loop: the prediction of one location.\<close>

definition predict_location ::
  "session_cache \<Rightarrow> jsnum \<Rightarrow> jsnum \<Rightarrow> weatherData \<Rightarrow> cameraLocation \<Rightarrow> exn + predictionResult" where
  "predict_location ss hour day weather location =
     await (run_models ss (feature_vector location hour day weather)) (\<lambda>results.
     if length results = 0 then Inl (Exn ''Error'' ''No models loaded'')
     else await (reduce pick results) (\<lambda>finalResult.
       Inr \<lparr>p_location = name location,
            p_latitude = latitude location,
            p_longitude = longitude location,
            p_congestion = congestion finalResult,
            p_congestionLabel = CONGESTION_LABELS (congestion finalResult),
            p_probability = probability finalResult\<rparr>))"

text \<open>The \<open>for\<close> loop over the locations, pushing onto \<open>predictions\<close>.\<close>

fun predict_loop ::
  "session_cache \<Rightarrow> jsnum \<Rightarrow> jsnum \<Rightarrow> weatherData \<Rightarrow> cameraLocation list
     \<Rightarrow> predictionResult list \<Rightarrow> exn + predictionResult list" where
  "predict_loop ss hour day weather [] predictions = Inr predictions"
| "predict_loop ss hour day weather (location # rest) predictions =
     (case predict_location ss hour day weather location of
        Inl e \<Rightarrow> Inl e
      | Inr p \<Rightarrow> predict_loop ss hour day weather rest (predictions @ [p]))"

record batchPredictionResponse =
  r_predictions :: "predictionResult list"
  r_weather :: weatherData
  r_timestamp :: string
  r_hour :: jsnum
  r_day :: jsnum

text \<open>The body of the \<open>try\<close> block of \<open>GET\<close>, up to the response object.\<close>

definition GET_try ::
  "env \<Rightarrow> request \<Rightarrow> module_state \<Rightarrow> (exn + batchPredictionResponse) \<times> module_state" where
  "GET_try env request st =
     (let hour = resolved_hour env request; day = resolved_day env request in
      case weather_call env request of
        Inl e \<Rightarrow> (Inl e, st)
      | Inr weather \<Rightarrow>
          (case getSessions env st of
             (Inl e, st') \<Rightarrow> (Inl e, st')
           | (Inr ss, st') \<Rightarrow>
               (case predict_loop ss hour day weather (cameraLocations env) [] of
                  Inl e \<Rightarrow> (Inl e, st')
                | Inr predictions \<Rightarrow>
                    (Inr \<lparr>r_predictions = predictions, r_weather = weather,
                          r_timestamp = now_toISOString env, r_hour = hour, r_day = day\<rparr>,
                     st'))))"

datatype body = Predictions (batch: batchPredictionResponse) | ErrorBody (error: string) (details: string)

record nextResponse =
  body :: body
  status :: nat

text \<open>
  The details of the \<open>catch\<close> block, \<open>err.message || String(err)\<close>: reading \<open>message\<close>
  of \<open>null\<close> or \<open>undefined\<close> throws a \<open>TypeError\<close>; an empty message is falsy.
\<close>

fun catch_details :: "exn \<Rightarrow> exn + string" where
  "catch_details (Exn n m) = Inr (if m \<noteq> [] then m else String_of (Exn n m))"
| "catch_details Thrown_null = Inl (Exn ''TypeError'' ''Cannot read properties of null'')"
| "catch_details Thrown_undefined =
     Inl (Exn ''TypeError'' ''Cannot read properties of undefined'')"
| "catch_details (Thrown_value s) = Inr s"

definition error_response :: "string \<Rightarrow> nextResponse" where
  "error_response d =
     \<lparr>body = ErrorBody ''Failed to generate predictions'' d, status = 500\<rparr>"

text \<open>
  \<open>GET\<close>: the \<open>try\<close> block and its \<open>catch\<close>. What the \<open>catch\<close> block itself throws
  rejects the promise that \<open>GET\<close> returns, and there is no response.
\<close>

definition GET :: "env \<Rightarrow> request \<Rightarrow> module_state \<Rightarrow> (exn + nextResponse) \<times> module_state" where
  "GET env request st =
     (case GET_try env request st of
        (Inr response, st') \<Rightarrow> (Inr \<lparr>body = Predictions response, status = 200\<rparr>, st')
      | (Inl err, st') \<Rightarrow> (await (catch_details err) (\<lambda>d. Inr (error_response d)), st'))"

text \<open>
  The states the module can be in: the initial one, and the one after any acquisition
  or any request, in any environment.
\<close>

inductive reachable :: "module_state \<Rightarrow> bool" where
  initial: "reachable initial_state"
| acquire: "reachable st \<Longrightarrow> reachable (snd (getSessions env st))"
| request: "reachable st \<Longrightarrow> reachable (snd (GET env request st))"

text \<open>The cache holds both handles or none.\<close>

definition all_or_nothing :: "session_cache \<Rightarrow> bool" where
  "all_or_nothing c = ((stage1 c = None) = (stage2 c = None))"

text \<open>One of the four loads of an acquisition fails: a file read or a session creation.\<close>

definition load_fails :: "env \<Rightarrow> bool" where
  "load_fails env =
     (case readFile env (modelPath1 env) of
        Inl e \<Rightarrow> True
      | Inr buffer1 \<Rightarrow>
          (case readFile env (modelPath2 env) of
             Inl e \<Rightarrow> True
           | Inr buffer2 \<Rightarrow>
               isl (InferenceSession_create env buffer1)
               \<or> isl (InferenceSession_create env buffer2)))"

section \<open>The data model of the specification\<close>

text \<open>
  A well-formed ModelInferenceResult of the specification: the congestion is one of the
  ordinals 0, 1, 2 and the probability lies in the interval from 0 to 1.
\<close>

definition unit_interval :: "jsnum \<Rightarrow> bool" where
  "unit_interval v = (case v of Fin p \<Rightarrow> 0 \<le> p \<and> p \<le> 1 | _ \<Rightarrow> False)"

definition wf_ModelInferenceResult :: "inferenceResult \<Rightarrow> bool" where
  "wf_ModelInferenceResult r =
     (congestion r \<in> {Fin 0, Fin 1, Fin 2} \<and> unit_interval (probability r))"

section \<open>A concrete deployment for the checks on concrete inputs\<close>

definition weather0 :: weatherData where
  "weather0 = \<lparr>temperature_2m = Fin 30, precipitation = Fin 0, rain = Fin 0,
               wind_speed_10m = Fin 12\<rparr>"

definition exact_add :: "jsnum \<Rightarrow> jsnum \<Rightarrow> jsnum" where
  "exact_add a b = (case a of Fin x \<Rightarrow> (case b of Fin y \<Rightarrow> Fin (x + y) | _ \<Rightarrow> NaN) | _ \<Rightarrow> NaN)"

definition exact_div :: "jsnum \<Rightarrow> jsnum \<Rightarrow> jsnum" where
  "exact_div a b =
     (case a of Fin x \<Rightarrow> (case b of Fin y \<Rightarrow> (if y = 0 then NaN else Fin (x / y)) | _ \<Rightarrow> NaN)
      | _ \<Rightarrow> NaN)"

text \<open>Joining path segments with a slash, which is what \<open>path.join\<close> does on plain segments.\<close>

definition join_slash :: "string list \<Rightarrow> string" where
  "join_slash parts = foldr (\<lambda>p acc. if acc = [] then p else p @ ''/'' @ acc) parts []"

text \<open>
  Two cameras; the first model file yields a classifier answering Moderate with score
  0.7, the second a regressor answering 2.6.
\<close>

definition env0 :: env where
  "env0 =
     \<lparr>cameraLocations =
        [\<lparr>name = ''Saddar'', latitude = Fin 24.86, longitude = Fin 67.01\<rparr>,
         \<lparr>name = ''Clifton'', latitude = Fin 24.82, longitude = Fin 67.03\<rparr>],
      getCurrentTimeInfo = \<lparr>timeInfo_hour = Fin 9, timeInfo_day = Fin 1\<rparr>,
      getWeatherForTime = (\<lambda>lat lng hour day. Inr weather0),
      num_add = exact_add,
      num_div = exact_div,
      cwd = ''/app'',
      path_join = join_slash,
      readFile = (\<lambda>p. if p = ''/app/public/models/model_stage1.onnx'' then Inr [1] else Inr [2]),
      readFile_second_first = False,
      InferenceSession_create =
        (\<lambda>b. Inr (const_session (if b = [1] then [Fin 0.1, Fin 0.7, Fin 0.2] else [Fin 2.6]))),
      create_second_first = False,
      now_toISOString = ''2024-01-01T09:00:00.000Z''\<rparr>"

text \<open>
  The same deployment with the model files missing, with the weather service down, with
  a weather service that rejects with \<open>undefined\<close>, and with a first model that
  answers \<open>NaN\<close>.
\<close>

definition env_weather_undefined :: env where
  "env_weather_undefined =
     env0\<lparr>getWeatherForTime := (\<lambda>lat lng hour day. Inl Thrown_undefined)\<rparr>"

definition env_nan :: env where
  "env_nan =
     env0\<lparr>InferenceSession_create :=
            (\<lambda>b. Inr (const_session (if b = [1] then [NaN] else [Fin 2.6])))\<rparr>"

definition env_no_models :: env where
  "env_no_models = env0\<lparr>readFile := (\<lambda>p. Inl (Exn ''Error'' ''ENOENT: no such file''))\<rparr>"

definition env_no_weather :: env where
  "env_no_weather =
     env0\<lparr>getWeatherForTime := (\<lambda>lat lng hour day. Inl (Exn ''Error'' ''Weather API error''))\<rparr>"

text \<open>The state with both models of \<open>env0\<close> loaded, and the batch for hour 17 of day 3.\<close>

definition state_loaded :: module_state where
  "state_loaded =
     \<lparr>sessions = \<lparr>stage1 = Some (const_session [Fin 0.1, Fin 0.7, Fin 0.2]),
                   stage2 = Some (const_session [Fin 2.6])\<rparr>,
      loads = 1\<rparr>"

definition batch_17 :: batchPredictionResponse where
  "batch_17 =
     \<lparr>r_predictions =
        [\<lparr>p_location = ''Saddar'', p_latitude = Fin 24.86, p_longitude = Fin 67.01,
          p_congestion = Fin 2, p_congestionLabel = Some ''High'', p_probability = Fin 1\<rparr>,
         \<lparr>p_location = ''Clifton'', p_latitude = Fin 24.82, p_longitude = Fin 67.03,
          p_congestion = Fin 2, p_congestionLabel = Some ''High'', p_probability = Fin 1\<rparr>],
      r_weather = weather0, r_timestamp = ''2024-01-01T09:00:00.000Z'',
      r_hour = Fin 17, r_day = Fin 3\<rparr>"

definition request_plain :: request where
  "request_plain = \<lparr>searchParams = Map.empty\<rparr>"

definition request_17 :: request where
  "request_17 = \<lparr>searchParams = [''hour'' \<mapsto> code_units ''17'', ''day'' \<mapsto> code_units ''3'']\<rparr>"

definition request_abc :: request where
  "request_abc = \<lparr>searchParams = [''hour'' \<mapsto> code_units ''abc'']\<rparr>"

section \<open>Comparison of numbers\<close>

lemma js_gt_NaN_right [simp]: "js_gt a NaN = False" by (cases a) simp_all
lemma js_gt_irrefl: "\<not> js_gt a a" by (cases a) simp_all
lemma js_gt_chain: "js_gt v m \<Longrightarrow> \<not> js_gt a m \<Longrightarrow> \<not> js_gt a v"
  by (cases a; cases v; cases m) simp_all
lemma js_gt_trans: "js_gt a b \<Longrightarrow> js_gt b c \<Longrightarrow> js_gt a c"
  by (cases a; cases b; cases c) simp_all

text \<open>On numbers other than \<open>NaN\<close> the comparison is a strict total order.\<close>

lemma js_gt_total: "a \<noteq> NaN \<Longrightarrow> b \<noteq> NaN \<Longrightarrow> js_gt a b \<or> a = b \<or> js_gt b a"
  by (cases a; cases b) auto

lemma js_not_gt: "a \<noteq> NaN \<Longrightarrow> b \<noteq> NaN \<Longrightarrow> \<not> js_gt a b \<Longrightarrow> a = b \<or> js_gt b a"
  using js_gt_total by blast

lemma js_gt_below: "js_gt v m \<Longrightarrow> \<not> js_gt a m \<Longrightarrow> a = NaN \<or> js_gt v a"
  by (cases a; cases v; cases m) simp_all

lemma argmax_loop_spec:
  assumes "argmax_loop out i maxIdx maxVal = (k, v)"
    and "i \<le> length out" and "maxIdx < i" and "maxVal = out ! maxIdx"
    and "\<forall>j<i. \<not> js_gt (out ! j) maxVal"
    and "\<forall>j<maxIdx. out ! j = NaN \<or> js_gt maxVal (out ! j)"
  shows "k < length out \<and> v = out ! k \<and> (\<forall>j<length out. \<not> js_gt (out ! j) v)
         \<and> (\<forall>j<k. out ! j = NaN \<or> js_gt v (out ! j))"
  using assms
proof (induction out i maxIdx maxVal rule: argmax_loop.induct)
  case (1 outputData i maxIdx maxVal)
  show ?case
  proof (cases "i < length outputData")
    case False
    with "1.prems" show ?thesis by (auto simp add: argmax_loop.simps[of outputData i])
  next
    case True
    note lt = this
    show ?thesis
    proof (cases "js_gt (getVal outputData i) maxVal")
      case True
      then have g: "js_gt (outputData ! i) maxVal" using lt by (simp add: getVal_def)
      have a: "\<forall>j<i + 1. \<not> js_gt (outputData ! j) (outputData ! i)"
        using g "1.prems"(5) js_gt_chain js_gt_irrefl by (metis less_Suc_eq Suc_eq_plus1)
      have b: "\<forall>j<i. outputData ! j = NaN \<or> js_gt (outputData ! i) (outputData ! j)"
        using g "1.prems"(5) js_gt_below by blast
      have "argmax_loop outputData (i + 1) i (getVal outputData i) = (k, v)"
        using "1.prems"(1) lt True by (simp add: argmax_loop.simps[of outputData i])
      from "1.IH"(1)[OF lt True this] lt a b show ?thesis by (auto simp add: getVal_def)
    next
      case False
      then have g: "\<not> js_gt (outputData ! i) maxVal" using lt by (simp add: getVal_def)
      have a: "\<forall>j<i + 1. \<not> js_gt (outputData ! j) maxVal"
        using g "1.prems"(5) by (metis less_Suc_eq Suc_eq_plus1)
      have "argmax_loop outputData (i + 1) maxIdx maxVal = (k, v)"
        using "1.prems"(1) lt False by (simp add: argmax_loop.simps[of outputData i])
      from "1.IH"(2)[OF lt False this] lt a "1.prems" show ?thesis by auto
    qed
  qed
qed

text \<open>With a maximum that is \<open>NaN\<close> no entry is ever greater, so the loop changes nothing.\<close>

lemma argmax_loop_NaN: "argmax_loop out i maxIdx NaN = (maxIdx, NaN)"
proof (induction "length out - i" arbitrary: i)
  case 0
  then show ?case by (simp add: argmax_loop.simps[of out i])
next
  case (Suc n)
  then have "n = length out - (i + 1)" by simp
  from Suc.hyps(1)[OF this] show ?case by (simp add: argmax_loop.simps[of out i])
qed

text \<open>A maximum that is a number stays a number.\<close>

lemma argmax_loop_number:
  "argmax_loop out i maxIdx maxVal = (k, v) \<Longrightarrow> maxVal \<noteq> NaN \<Longrightarrow> v \<noteq> NaN"
proof (induction out i maxIdx maxVal rule: argmax_loop.induct)
  case (1 outputData i maxIdx maxVal)
  show ?case
  proof (cases "i < length outputData")
    case False
    with "1.prems" show ?thesis by (auto simp add: argmax_loop.simps[of outputData i])
  next
    case True
    note lt = this
    show ?thesis
    proof (cases "js_gt (getVal outputData i) maxVal")
      case True
      then have n: "getVal outputData i \<noteq> NaN" by (cases "getVal outputData i") simp_all
      have "argmax_loop outputData (i + 1) i (getVal outputData i) = (k, v)"
        using "1.prems"(1) lt True by (simp add: argmax_loop.simps[of outputData i])
      from "1.IH"(1)[OF lt True this n] show ?thesis .
    next
      case False
      have "argmax_loop outputData (i + 1) maxIdx maxVal = (k, v)"
        using "1.prems"(1) lt False by (simp add: argmax_loop.simps[of outputData i])
      from "1.IH"(2)[OF lt False this "1.prems"(2)] show ?thesis .
    qed
  qed
qed

section \<open>Rounding to a floating-point format\<close>

lemma round_half_even_int: "round_half_even (of_int k) = k"
  by (simp add: round_half_even_def)

lemma floor_log2_eq:
  assumes "2 powi k \<le> x" and "x < 2 powi (k + 1)"
  shows "\<lfloor>log 2 x\<rfloor> = k"
proof -
  have pos: "0 < x" using assms(1) by (smt (verit) zero_less_power_int)
  have "(2::real) powr real_of_int k = 2 powi k" by (simp add: powr_real_of_int')
  moreover have "(2::real) powr real_of_int (k + 1) = 2 powi (k + 1)"
    by (simp add: powr_real_of_int' del: of_int_add)
  ultimately show ?thesis
    using floor_log_eq_powr_iff[of x 2 k] pos assms by simp
qed

text \<open>The rounding of a value whose binade \<open>k\<close> is known.\<close>

lemma round_binary_eval:
  assumes "x \<noteq> 0" and "2 powi k \<le> \<bar>x\<bar>" and "\<bar>x\<bar> < 2 powi (k + 1)" and "emin \<le> k"
    and "round_half_even (x / 2 powi (k - (int p - 1))) = n"
    and "\<bar>of_int n * 2 powi (k - (int p - 1))\<bar> < (2::real) ^ nat (emax + 1)"
  shows "round_binary p emin emax x = Fin (of_int n * 2 powi (k - (int p - 1)))"
proof -
  have e: "max emin \<lfloor>log 2 \<bar>x\<bar>\<rfloor> = k"
    using floor_log2_eq[OF assms(2,3)] assms(4) by simp
  show ?thesis
    using assms(1,5,6) by (simp add: round_binary_def e Let_def)
qed

text \<open>An integer of fewer than \<open>p\<close> bits is representable, so rounding leaves it alone.\<close>

lemma round_binary_int:
  assumes "\<bar>m\<bar> < 2 ^ p" and "emin \<le> 0" and "int p \<le> emax + 1"
  shows "round_binary p emin emax (of_int m) = Fin (of_int m)"
proof (cases "m = 0")
  case True
  then show ?thesis by (simp add: round_binary_def)
next
  case False
  define x :: real where "x = of_int m"
  define k where "k = \<lfloor>log 2 \<bar>x\<bar>\<rfloor>"
  have x1: "1 \<le> \<bar>x\<bar>" using False by (simp add: x_def)
  have xp: "\<bar>x\<bar> < 2 ^ p"
  proof -
    have "real_of_int \<bar>m\<bar> < real_of_int (2 ^ p)" using assms(1) by (simp only: of_int_less_iff)
    then show ?thesis by (simp add: x_def)
  qed
  have k0: "0 \<le> k" using x1 by (simp add: k_def)
  have bounds: "2 powr real_of_int k \<le> \<bar>x\<bar> \<and> \<bar>x\<bar> < 2 powr real_of_int (k + 1)"
    using floor_log_eq_powr_iff[of "\<bar>x\<bar>" 2 k] x1 by (simp add: k_def)
  have lo: "2 powi k \<le> \<bar>x\<bar>" and hi: "\<bar>x\<bar> < 2 powi (k + 1)"
    using bounds by (simp_all add: powr_real_of_int' del: of_int_add)
  have kp: "k < int p"
  proof (rule ccontr)
    assume "\<not> k < int p"
    then have "int p \<le> k" by simp
    then have "(2::real) powi int p \<le> 2 powi k" by (intro power_int_increasing) simp_all
    with lo xp show False by (simp add: power_int_def)
  qed
  define j where "j = nat (int p - 1 - k)"
  have kj: "k - (int p - 1) = - int j" using kp by (simp add: j_def)
  have u: "(2::real) powi (k - (int p - 1)) = 1 / 2 ^ j"
    unfolding kj by (simp add: power_int_minus field_simps)
  have q: "x / 2 powi (k - (int p - 1)) = of_int (m * 2 ^ j)"
    unfolding u by (simp add: x_def)
  have n: "round_half_even (x / 2 powi (k - (int p - 1))) = m * 2 ^ j"
    unfolding q by (rule round_half_even_int)
  have undo: "real_of_int (m * 2 ^ j) * 2 powi (k - (int p - 1)) = x"
    unfolding u by (simp add: x_def)
  have pw: "(2::real) ^ p \<le> 2 ^ nat (emax + 1)"
    using assms(3) by (intro power_increasing) simp_all
  have small: "\<bar>real_of_int (m * 2 ^ j) * 2 powi (k - (int p - 1))\<bar> < 2 ^ nat (emax + 1)"
    unfolding undo by (rule less_le_trans[OF xp pw])
  have nz: "x \<noteq> 0" using False by (simp add: x_def)
  have em: "emin \<le> k" using assms(2) k0 by simp
  have "round_binary p emin emax x
          = Fin (real_of_int (m * 2 ^ j) * 2 powi (k - (int p - 1)))"
    by (rule round_binary_eval[OF nz lo hi em n small])
  then show ?thesis unfolding undo by (simp add: x_def)
qed

lemma to_double_int: "\<bar>m\<bar> < 2 ^ 53 \<Longrightarrow> to_double (of_int m) = Fin (of_int m)"
  unfolding to_double_def by (rule round_binary_int) simp_all

lemma to_double_nat: "n < 2 ^ 53 \<Longrightarrow> to_double (real n) = Fin (real n)"
  using to_double_int[of "int n"] by simp

lemma to_double_numeral [simp]:
  "numeral n < (2::int) ^ 53 \<Longrightarrow> to_double (numeral n) = Fin (numeral n)"
  "numeral n < (2::int) ^ 53 \<Longrightarrow> to_double (- numeral n) = Fin (- numeral n)"
  "to_double 0 = Fin 0" "to_double 1 = Fin 1" "to_double (- 1) = Fin (- 1)"
  using to_double_int[of "numeral n"] to_double_int[of "- numeral n"]
    to_double_int[of 0] to_double_int[of 1] to_double_int[of "- 1"]
  by simp_all

text \<open>Beyond 53 bits the integer is rounded: \<open>2^53 + 1\<close> is a tie and goes to the even side.\<close>

lemma to_double_2_53_1: "to_double 9007199254740993 = Fin 9007199254740992"
proof -
  have "round_binary 53 (- 1022) 1023 9007199254740993
          = Fin (of_int 4503599627370496 * 2 powi (53 - (int 53 - 1)))"
    by (rule round_binary_eval) (simp_all add: round_half_even_def)
  then show ?thesis by (simp add: to_double_def)
qed

text \<open>Single precision: 24.86 becomes 24.860000610351562.\<close>

lemma fround_24_86: "fround (Fin 24.86) = Fin (1629225 / 65536)"
proof -
  have "round_binary 24 (- 126) 127 24.86 = Fin (of_int 13033800 * 2 powi (4 - (int 24 - 1)))"
    by (rule round_binary_eval) (simp_all add: round_half_even_def power_int_minus)
  then show ?thesis by (simp add: fround_def power_int_minus)
qed

lemma length_Float32Array_from [simp]: "length (Float32Array_from numbers) = length numbers"
  by (simp add: Float32Array_from_def)

section \<open>Decoding the output of a model\<close>

lemma runInference_decode:
  "session_output session inputData = Inr out \<Longrightarrow> runInference session inputData = Inr (decode out)"
  by (simp add: runInference_def runInference_try_def await_def)

lemma runInference_caught:
  "session_output session inputData = Inl e \<Longrightarrow>
   runInference session inputData = Inr \<lparr>congestion = Fin 0, probability = Fin 0\<rparr>"
  by (simp add: runInference_def runInference_try_def await_def)

lemma decode_argmax:
  assumes "3 \<le> length out"
  shows "\<exists>k<length out. decode out = \<lparr>congestion = Fin (real k), probability = out ! k\<rparr>
           \<and> (\<forall>j<length out. \<not> js_gt (out ! j) (out ! k))
           \<and> (\<forall>j<k. out ! j = NaN \<or> js_gt (out ! k) (out ! j))"
proof -
  obtain k v where kv: "argmax_loop out 1 0 (getVal out 0) = (k, v)"
    by (cases "argmax_loop out 1 0 (getVal out 0)")
  have g0: "getVal out 0 = out ! 0" using assms by (cases out) (simp_all add: getVal_def)
  have "\<forall>j<1. \<not> js_gt (out ! j) (out ! 0)" by (simp add: js_gt_irrefl)
  then have "k < length out \<and> v = out ! k \<and> (\<forall>j<length out. \<not> js_gt (out ! j) v)
         \<and> (\<forall>j<k. out ! j = NaN \<or> js_gt v (out ! j))"
    using argmax_loop_spec[OF kv[unfolded g0]] assms by auto
  moreover have "decode out = \<lparr>congestion = Fin (real k), probability = v\<rparr>"
    using assms kv by (simp add: decode_def)
  ultimately show ?thesis by blast
qed

lemma decode_argmax_NaN:
  assumes "3 \<le> length out" and "out ! 0 = NaN"
  shows "decode out = \<lparr>congestion = Fin 0, probability = NaN\<rparr>"
proof -
  have "getVal out 0 = NaN" using assms by (cases out) (simp_all add: getVal_def)
  then show ?thesis using assms(1) by (simp add: decode_def argmax_loop_NaN)
qed

lemma decode_argmax_number:
  assumes "3 \<le> length out" and "out ! 0 \<noteq> NaN"
  shows "\<exists>k<length out. decode out = \<lparr>congestion = Fin (real k), probability = out ! k\<rparr>
           \<and> out ! k \<noteq> NaN
           \<and> (\<forall>j<length out. out ! j = NaN \<or> out ! j = out ! k \<or> js_gt (out ! k) (out ! j))
           \<and> (\<forall>j<k. out ! j = NaN \<or> js_gt (out ! k) (out ! j))"
proof -
  obtain k v where kv: "argmax_loop out 1 0 (getVal out 0) = (k, v)"
    by (cases "argmax_loop out 1 0 (getVal out 0)")
  have g0: "getVal out 0 = out ! 0" using assms(1) by (cases out) (simp_all add: getVal_def)
  have "\<forall>j<1. \<not> js_gt (out ! j) (out ! 0)" by (simp add: js_gt_irrefl)
  then have spec: "k < length out" "v = out ! k" "\<forall>j<length out. \<not> js_gt (out ! j) v"
    "\<forall>j<k. out ! j = NaN \<or> js_gt v (out ! j)"
    using argmax_loop_spec[OF kv[unfolded g0]] assms(1) by auto
  have num: "out ! k \<noteq> NaN"
    using argmax_loop_number[OF kv[unfolded g0] assms(2)] spec(2) by simp
  have all: "\<forall>j<length out. out ! j = NaN \<or> out ! j = out ! k \<or> js_gt (out ! k) (out ! j)"
  proof (intro allI impI)
    fix j assume "j < length out"
    with spec(2,3) have "\<not> js_gt (out ! j) (out ! k)" by simp
    with num show "out ! j = NaN \<or> out ! j = out ! k \<or> js_gt (out ! k) (out ! j)"
      using js_not_gt by blast
  qed
  have d: "decode out = \<lparr>congestion = Fin (real k), probability = out ! k\<rparr>"
    using assms(1) kv spec(2) by (simp add: decode_def)
  show ?thesis
    using spec(1) d num all spec(4)[unfolded spec(2)] by blast
qed

lemma decode_regression:
  assumes "length (v # rest) < 3" and "v \<noteq> NaN"
  shows "\<exists>c::int. decode (v # rest) = \<lparr>congestion = Fin (of_int c), probability = Fin 1\<rparr>
           \<and> 0 \<le> c \<and> c \<le> 2
           \<and> (\<forall>x. v = Fin x \<longrightarrow> c = max 0 (min 2 \<lfloor>x + 1 / 2\<rfloor>))
           \<and> (v = PosInf \<longrightarrow> c = 2) \<and> (v = NegInf \<longrightarrow> c = 0)"
proof (cases v)
  case NaN with assms show ?thesis by simp
next
  case NegInf
  with assms have "decode (v # rest) = \<lparr>congestion = Fin (of_int 0), probability = Fin 1\<rparr>"
    by (simp add: decode_def getVal_def Math_max_def Math_min_def)
  with NegInf show ?thesis by auto
next
  case PosInf
  with assms have "decode (v # rest) = \<lparr>congestion = Fin (of_int 2), probability = Fin 1\<rparr>"
    by (simp add: decode_def getVal_def Math_max_def Math_min_def)
  with PosInf show ?thesis by auto
next
  case (Fin x)
  let ?n = "\<lfloor>x + 1 / 2\<rfloor>"
  have "decode (v # rest) = \<lparr>congestion = Fin (of_int (max 0 (min 2 ?n))), probability = Fin 1\<rparr>"
    using assms Fin by (auto simp add: decode_def getVal_def Math_max_def Math_min_def max_def min_def)
  with Fin show ?thesis by auto
qed

lemma decode_no_number:
  "out = [] \<or> (\<exists>rest. out = NaN # rest) \<Longrightarrow> length out < 3 \<Longrightarrow>
   decode out = \<lparr>congestion = NaN, probability = Fin 1\<rparr>"
  by (auto simp add: decode_def getVal_def Math_max_def Math_min_def)

lemma round_nearest: "\<bar>x - of_int \<lfloor>x + 1 / 2\<rfloor>\<bar> \<le> 1 / (2::real)"
  by linarith

lemma session_output_const:
  "session_output (const_session out) features0 = Inr out"
  by (simp add: session_output_def const_session_def features0_def new_Tensor_def await_def key0_def)

text \<open>
  C2, as amended: whenever the session yields an output vector of length at least 3
  whose first entry is not \<open>NaN\<close>, \<open>runInference\<close> returns as congestion the index \<open>k\<close>
  of the maximum among the entries that are not \<open>NaN\<close> (every entry is \<open>NaN\<close>, equal
  to the entry at \<open>k\<close> or smaller than it) under the strict comparison, so that among
  equal maxima the lowest index wins (every earlier entry is \<open>NaN\<close> or strictly
  smaller), and as probability that maximum; for a vector without \<open>NaN\<close> this is the
  index of its maximum value. When the first entry is \<open>NaN\<close>, the congestion is 0 and
  the probability is \<open>NaN\<close>. In particular \<open>[0.1, 0.7, 0.2]\<close> gives congestion 1 with
  probability 0.7, and \<open>[0.5, 0.5, 0.0]\<close> gives congestion 0.
\<close>

theorem runInference_argmax:
  assumes "session_output session inputData = Inr out" and "3 \<le> length out"
  shows "(out ! 0 \<noteq> NaN \<longrightarrow>
           (\<exists>k<length out.
              runInference session inputData = Inr \<lparr>congestion = Fin (real k), probability = out ! k\<rparr>
              \<and> out ! k \<noteq> NaN
              \<and> (\<forall>j<length out. out ! j = NaN \<or> out ! j = out ! k \<or> js_gt (out ! k) (out ! j))
              \<and> (\<forall>j<k. out ! j = NaN \<or> js_gt (out ! k) (out ! j))))
       \<and> (out ! 0 = NaN \<longrightarrow>
            runInference session inputData = Inr \<lparr>congestion = Fin 0, probability = NaN\<rparr>)
       \<and> (out = [Fin 0.1, Fin 0.7, Fin 0.2] \<longrightarrow>
            runInference session inputData = Inr \<lparr>congestion = Fin 1, probability = Fin 0.7\<rparr>)
       \<and> (out = [Fin 0.5, Fin 0.5, Fin 0.0] \<longrightarrow>
            runInference session inputData = Inr \<lparr>congestion = Fin 0, probability = Fin 0.5\<rparr>)"
proof (intro conjI impI)
  assume "out ! 0 \<noteq> NaN"
  from decode_argmax_number[OF assms(2) this] runInference_decode[OF assms(1)]
  show "\<exists>k<length out.
              runInference session inputData = Inr \<lparr>congestion = Fin (real k), probability = out ! k\<rparr>
              \<and> out ! k \<noteq> NaN
              \<and> (\<forall>j<length out. out ! j = NaN \<or> out ! j = out ! k \<or> js_gt (out ! k) (out ! j))
              \<and> (\<forall>j<k. out ! j = NaN \<or> js_gt (out ! k) (out ! j))"
    by simp
next
  assume "out ! 0 = NaN"
  from decode_argmax_NaN[OF assms(2) this] runInference_decode[OF assms(1)]
  show "runInference session inputData = Inr \<lparr>congestion = Fin 0, probability = NaN\<rparr>"
    by simp
next
  assume "out = [Fin 0.1, Fin 0.7, Fin 0.2]"
  with runInference_decode[OF assms(1)]
  show "runInference session inputData = Inr \<lparr>congestion = Fin 1, probability = Fin 0.7\<rparr>"
    by (simp add: decode_def argmax_loop.simps getVal_def)
next
  assume "out = [Fin 0.5, Fin 0.5, Fin 0.0]"
  with runInference_decode[OF assms(1)]
  show "runInference session inputData = Inr \<lparr>congestion = Fin 0, probability = Fin 0.5\<rparr>"
    by (simp add: decode_def argmax_loop.simps getVal_def)
qed

theorem runInference_argmax_witness:
  "session_output (const_session [Fin 0.2, Fin 0.9, Fin 0.9, Fin 0.3]) features0
     = Inr [Fin 0.2, Fin 0.9, Fin 0.9, Fin 0.3]
   \<and> 3 \<le> length [Fin 0.2, Fin 0.9, Fin 0.9, Fin 0.3]
   \<and> [Fin 0.2, Fin 0.9, Fin 0.9, Fin 0.3] ! 0 \<noteq> NaN
   \<and> runInference (const_session [Fin 0.2, Fin 0.9, Fin 0.9, Fin 0.3]) features0
     = Inr \<lparr>congestion = Fin 1, probability = Fin 0.9\<rparr>
   \<and> runInference (const_session [Fin 0.3, NaN, Fin 0.8]) features0
     = Inr \<lparr>congestion = Fin 2, probability = Fin 0.8\<rparr>
   \<and> [NaN, Fin 0.9, Fin 0.1] ! 0 = NaN
   \<and> runInference (const_session [NaN, Fin 0.9, Fin 0.1]) features0
     = Inr \<lparr>congestion = Fin 0, probability = NaN\<rparr>
   \<and> runInference (const_session [Fin 0.1, Fin 0.7, Fin 0.2]) features0
     = Inr \<lparr>congestion = Fin 1, probability = Fin 0.7\<rparr>
   \<and> runInference (const_session [Fin 0.5, Fin 0.5, Fin 0.0]) features0
     = Inr \<lparr>congestion = Fin 0, probability = Fin 0.5\<rparr>"
proof -
  have n: "3 \<le> length [Fin 0.2, Fin 0.9, Fin 0.9, Fin 0.3]" by simp
  have m: "[Fin 0.2, Fin 0.9, Fin 0.9, Fin 0.3] ! 0 \<noteq> NaN" by simp
  have z: "[NaN, Fin 0.9, Fin 0.1] ! 0 = NaN" by simp
  have a: "runInference (const_session [Fin 0.2, Fin 0.9, Fin 0.9, Fin 0.3]) features0
     = Inr \<lparr>congestion = Fin 1, probability = Fin 0.9\<rparr>"
    by (simp add: runInference_decode[OF session_output_const] decode_def argmax_loop.simps
        getVal_def)
  have b: "runInference (const_session [Fin 0.1, Fin 0.7, Fin 0.2]) features0
     = Inr \<lparr>congestion = Fin 1, probability = Fin 0.7\<rparr>"
    by (simp add: runInference_decode[OF session_output_const] decode_def argmax_loop.simps
        getVal_def)
  have c: "runInference (const_session [Fin 0.5, Fin 0.5, Fin 0.0]) features0
     = Inr \<lparr>congestion = Fin 0, probability = Fin 0.5\<rparr>"
    by (simp add: runInference_decode[OF session_output_const] decode_def argmax_loop.simps
        getVal_def)
  have d: "runInference (const_session [Fin 0.3, NaN, Fin 0.8]) features0
     = Inr \<lparr>congestion = Fin 2, probability = Fin 0.8\<rparr>"
    by (simp add: runInference_decode[OF session_output_const] decode_def argmax_loop.simps
        getVal_def)
  have e: "runInference (const_session [NaN, Fin 0.9, Fin 0.1]) features0
     = Inr \<lparr>congestion = Fin 0, probability = NaN\<rparr>"
    by (simp add: runInference_decode[OF session_output_const] decode_def argmax_loop.simps
        getVal_def)
  show ?thesis
    using runInference_argmax[OF session_output_const, of "[Fin 0.2, Fin 0.9, Fin 0.9, Fin 0.3]"]
      runInference_argmax[OF session_output_const, of "[Fin 0.3, NaN, Fin 0.8]"]
      runInference_argmax[OF session_output_const, of "[NaN, Fin 0.9, Fin 0.1]"]
      runInference_argmax[OF session_output_const, of "[Fin 0.1, Fin 0.7, Fin 0.2]"]
      runInference_argmax[OF session_output_const, of "[Fin 0.5, Fin 0.5, Fin 0.0]"]
    by (intro conjI session_output_const n m z a b c d e)
qed

text \<open>
  The output vector \<open>[NaN, 0.9, 0.1]\<close> has length 3 and its maximum value 0.9 is at
  index 1, greater than the other number; \<open>runInference\<close> returns congestion 0 with
  probability \<open>NaN\<close>.
\<close>

theorem runInference_argmax_counterexample:
  "3 \<le> length [NaN, Fin 0.9, Fin 0.1]
   \<and> js_gt (Fin 0.9) (Fin 0.1)
   \<and> runInference (const_session [NaN, Fin 0.9, Fin 0.1]) features0
       = Inr \<lparr>congestion = Fin 0, probability = NaN\<rparr>"
  by (simp add: runInference_decode[OF session_output_const] decode_def argmax_loop.simps
      getVal_def)

text \<open>
  C3, as amended: whenever the session yields an output vector of length 1 or 2 whose
  first entry is not \<open>NaN\<close>, \<open>runInference\<close> rounds the first entry to a nearest integer
  (a tie going up), clamps it into 0 .. 2, returns that as the congestion and reports
  probability 1; an infinite entry clamps to 2 or 0. In particular 2.6 gives congestion
  2 and -1 gives congestion 0, both with probability 1. When the vector is empty or its
  first entry is \<open>NaN\<close>, the congestion is \<open>NaN\<close>, with probability 1.
\<close>

theorem runInference_regression:
  assumes "session_output session inputData = Inr out" and "length out < 3"
  shows "(\<forall>v rest. out = v # rest \<and> v \<noteq> NaN \<longrightarrow>
            (\<exists>c::int. runInference session inputData
                         = Inr \<lparr>congestion = Fin (of_int c), probability = Fin 1\<rparr>
               \<and> 0 \<le> c \<and> c \<le> 2
               \<and> (\<forall>x. v = Fin x \<longrightarrow> c = max 0 (min 2 \<lfloor>x + 1 / 2\<rfloor>)
                                    \<and> \<bar>x - of_int \<lfloor>x + 1 / 2\<rfloor>\<bar> \<le> 1 / 2)
               \<and> (v = PosInf \<longrightarrow> c = 2) \<and> (v = NegInf \<longrightarrow> c = 0)
               \<and> (v = Fin 2.6 \<longrightarrow> c = 2) \<and> (v = Fin (- 1) \<longrightarrow> c = 0)))
       \<and> (out = [] \<or> (\<exists>rest. out = NaN # rest) \<longrightarrow>
            runInference session inputData = Inr \<lparr>congestion = NaN, probability = Fin 1\<rparr>)"
proof (intro conjI allI impI)
  fix v rest assume h: "out = v # rest \<and> v \<noteq> NaN"
  with assms(2) have "length (v # rest) < 3" "v \<noteq> NaN" by simp_all
  from decode_regression[OF this] obtain c :: int where
    c: "decode (v # rest) = \<lparr>congestion = Fin (of_int c), probability = Fin 1\<rparr>"
       "0 \<le> c" "c \<le> 2" "\<forall>x. v = Fin x \<longrightarrow> c = max 0 (min 2 \<lfloor>x + 1 / 2\<rfloor>)"
       "v = PosInf \<longrightarrow> c = 2" "v = NegInf \<longrightarrow> c = 0"
    by blast
  have a: "v = Fin 2.6 \<longrightarrow> c = 2"
  proof
    assume "v = Fin 2.6"
    with c(4) have "c = max 0 (min 2 \<lfloor>2.6 + 1 / 2 :: real\<rfloor>)" by blast
    moreover have "\<lfloor>2.6 + 1 / 2 :: real\<rfloor> = 3" by simp
    ultimately show "c = 2" by simp
  qed
  have b: "v = Fin (- 1) \<longrightarrow> c = 0"
  proof
    assume "v = Fin (- 1)"
    with c(4) have "c = max 0 (min 2 \<lfloor>- 1 + 1 / 2 :: real\<rfloor>)" by blast
    moreover have "\<lfloor>- 1 + 1 / 2 :: real\<rfloor> = - 1" by simp
    ultimately show "c = 0" by simp
  qed
  have n: "\<forall>x. v = Fin x \<longrightarrow> c = max 0 (min 2 \<lfloor>x + 1 / 2\<rfloor>)
                                    \<and> \<bar>x - of_int \<lfloor>x + 1 / 2\<rfloor>\<bar> \<le> 1 / 2"
    using c(4) round_nearest by blast
  have r: "runInference session inputData = Inr \<lparr>congestion = Fin (of_int c), probability = Fin 1\<rparr>"
    using runInference_decode[OF assms(1)] h c(1) by simp
  show "\<exists>c::int. runInference session inputData
                         = Inr \<lparr>congestion = Fin (of_int c), probability = Fin 1\<rparr>
               \<and> 0 \<le> c \<and> c \<le> 2
               \<and> (\<forall>x. v = Fin x \<longrightarrow> c = max 0 (min 2 \<lfloor>x + 1 / 2\<rfloor>)
                                    \<and> \<bar>x - of_int \<lfloor>x + 1 / 2\<rfloor>\<bar> \<le> 1 / 2)
               \<and> (v = PosInf \<longrightarrow> c = 2) \<and> (v = NegInf \<longrightarrow> c = 0)
               \<and> (v = Fin 2.6 \<longrightarrow> c = 2) \<and> (v = Fin (- 1) \<longrightarrow> c = 0)"
    using r c(2) c(3) n c(5) c(6) a b by (intro exI[of _ c] conjI) assumption+
next
  assume "out = [] \<or> (\<exists>rest. out = NaN # rest)"
  from decode_no_number[OF this assms(2)] runInference_decode[OF assms(1)]
  show "runInference session inputData = Inr \<lparr>congestion = NaN, probability = Fin 1\<rparr>" by simp
qed

theorem runInference_regression_witness:
  "session_output (const_session [Fin 1.5, Fin 7]) features0 = Inr [Fin 1.5, Fin 7]
   \<and> length [Fin 1.5, Fin 7] < 3 \<and> Fin 1.5 \<noteq> NaN
   \<and> runInference (const_session [Fin 1.5, Fin 7]) features0
       = Inr \<lparr>congestion = Fin 2, probability = Fin 1\<rparr>
   \<and> session_output (const_session [Fin 2.6]) features0 = Inr [Fin 2.6]
   \<and> runInference (const_session [Fin 2.6]) features0
       = Inr \<lparr>congestion = Fin 2, probability = Fin 1\<rparr>
   \<and> session_output (const_session [Fin (- 1)]) features0 = Inr [Fin (- 1)]
   \<and> runInference (const_session [Fin (- 1)]) features0
       = Inr \<lparr>congestion = Fin 0, probability = Fin 1\<rparr>
   \<and> session_output (const_session [NaN]) features0 = Inr [NaN]
   \<and> runInference (const_session [NaN]) features0
       = Inr \<lparr>congestion = NaN, probability = Fin 1\<rparr>"
proof -
  have n: "length [Fin 1.5, Fin 7] < 3" and v: "Fin 1.5 \<noteq> NaN" by simp_all
  have a: "runInference (const_session [Fin 1.5, Fin 7]) features0
       = Inr \<lparr>congestion = Fin 2, probability = Fin 1\<rparr>"
    by (simp add: runInference_decode[OF session_output_const] decode_def getVal_def
        Math_max_def Math_min_def)
  have b: "runInference (const_session [Fin 2.6]) features0
       = Inr \<lparr>congestion = Fin 2, probability = Fin 1\<rparr>"
    by (simp add: runInference_decode[OF session_output_const] decode_def getVal_def
        Math_max_def Math_min_def)
  have c: "runInference (const_session [Fin (- 1)]) features0
       = Inr \<lparr>congestion = Fin 0, probability = Fin 1\<rparr>"
    by (simp add: runInference_decode[OF session_output_const] decode_def getVal_def
        Math_max_def Math_min_def)
  have d: "runInference (const_session [NaN]) features0
       = Inr \<lparr>congestion = NaN, probability = Fin 1\<rparr>"
    by (simp add: runInference_decode[OF session_output_const] decode_def getVal_def
        Math_max_def Math_min_def)
  show ?thesis
    using runInference_regression[OF session_output_const, of "[Fin 1.5, Fin 7]"]
      runInference_regression[OF session_output_const, of "[Fin 2.6]"]
      runInference_regression[OF session_output_const, of "[Fin (- 1)]"]
      runInference_regression[OF session_output_const, of "[NaN]"]
    by (intro conjI session_output_const n v a b c d)
qed

text \<open>
  The empty output vector and the output vector \<open>[NaN]\<close> have length less than 3, and
  their congestion is \<open>NaN\<close>, which is not a level in 0 .. 2.
\<close>

theorem runInference_regression_counterexample:
  "length ([] :: jsnum list) < 3
   \<and> runInference (const_session []) features0 = Inr \<lparr>congestion = NaN, probability = Fin 1\<rparr>
   \<and> length [NaN] < 3
   \<and> runInference (const_session [NaN]) features0 = Inr \<lparr>congestion = NaN, probability = Fin 1\<rparr>"
  by (simp add: session_output_const runInference_decode decode_def getVal_def Math_max_def Math_min_def)

section \<open>Aggregation, the loop over the locations and the cache\<close>

lemma runInference_total: "\<exists>r. runInference session inputData = Inr r"
  by (cases "runInference_try session inputData") (simp_all add: runInference_def)

lemma run_models_both:
  assumes "stage1 ss = Some s1" and "stage2 ss = Some s2"
  shows "\<exists>r1 r2. runInference s1 x = Inr r1 \<and> runInference s2 x = Inr r2
           \<and> run_models ss x = Inr [r1, r2]"
proof -
  obtain r1 where r1: "runInference s1 x = Inr r1" using runInference_total by blast
  obtain r2 where r2: "runInference s2 x = Inr r2" using runInference_total by blast
  with r1 assms have "run_models ss x = Inr [r1, r2]"
    by (simp add: run_models_def await_def)
  with r1 r2 show ?thesis by blast
qed

lemma run_models_none:
  "stage1 ss = None \<Longrightarrow> stage2 ss = None \<Longrightarrow> run_models ss x = Inr []"
  by (simp add: run_models_def await_def)

lemma foldl_pick_max:
  assumes "k < length pre"
    and "\<forall>j<length pre. \<not> js_gt (congestion (pre ! j)) (congestion (pre ! k))"
    and "\<forall>j<k. congestion (pre ! j) = NaN \<or> js_gt (congestion (pre ! k)) (congestion (pre ! j))"
  shows "\<exists>m<length (pre @ rest). foldl pick (pre ! k) rest = (pre @ rest) ! m
           \<and> (\<forall>j<length (pre @ rest).
                 \<not> js_gt (congestion ((pre @ rest) ! j)) (congestion ((pre @ rest) ! m)))
           \<and> (\<forall>j<m. congestion ((pre @ rest) ! j) = NaN
                 \<or> js_gt (congestion ((pre @ rest) ! m)) (congestion ((pre @ rest) ! j)))"
  using assms
proof (induction rest arbitrary: pre k)
  case Nil
  then show ?case by auto
next
  case (Cons r rest)
  let ?pre = "pre @ [r]"
  have app: "pre @ r # rest = ?pre @ rest" by simp
  show ?case
  proof (cases "js_gt (congestion r) (congestion (pre ! k))")
    case True
    let ?k = "length pre"
    have k: "?k < length ?pre" by simp
    have nth: "?pre ! ?k = r" by simp
    have a: "\<forall>j<length ?pre. \<not> js_gt (congestion (?pre ! j)) (congestion (?pre ! ?k))"
    proof (intro allI impI)
      fix j assume "j < length ?pre"
      then consider "j < length pre" | "j = length pre" by fastforce
      then show "\<not> js_gt (congestion (?pre ! j)) (congestion (?pre ! ?k))"
      proof cases
        case 1
        with Cons.prems(2) have "\<not> js_gt (congestion (pre ! j)) (congestion (pre ! k))" by blast
        from js_gt_chain[OF True this] 1 show ?thesis by (simp add: nth_append)
      next
        case 2
        then show ?thesis by (simp add: js_gt_irrefl)
      qed
    qed
    have b: "\<forall>j<?k. congestion (?pre ! j) = NaN
               \<or> js_gt (congestion (?pre ! ?k)) (congestion (?pre ! j))"
    proof (intro allI impI)
      fix j assume j: "j < ?k"
      with Cons.prems(2) have "\<not> js_gt (congestion (pre ! j)) (congestion (pre ! k))" by blast
      from js_gt_below[OF True this] j
      show "congestion (?pre ! j) = NaN \<or> js_gt (congestion (?pre ! ?k)) (congestion (?pre ! j))"
        by (simp add: nth_append)
    qed
    have "foldl pick (pre ! k) (r # rest) = foldl pick (?pre ! ?k) rest"
      using True by (simp add: pick_def)
    with Cons.IH[OF k a b] show ?thesis unfolding app by simp
  next
    case False
    have k: "k < length ?pre" using Cons.prems(1) by simp
    have nth: "?pre ! k = pre ! k" using Cons.prems(1) by (simp add: nth_append)
    have a: "\<forall>j<length ?pre. \<not> js_gt (congestion (?pre ! j)) (congestion (?pre ! k))"
    proof (intro allI impI)
      fix j assume "j < length ?pre"
      then consider "j < length pre" | "j = length pre" by fastforce
      then show "\<not> js_gt (congestion (?pre ! j)) (congestion (?pre ! k))"
      proof cases
        case 1
        with Cons.prems(2) show ?thesis unfolding nth by (simp add: nth_append)
      next
        case 2
        with False show ?thesis unfolding nth by simp
      qed
    qed
    have b: "\<forall>j<k. congestion (?pre ! j) = NaN
               \<or> js_gt (congestion (?pre ! k)) (congestion (?pre ! j))"
      using Cons.prems(1,3) unfolding nth by (simp add: nth_append)
    have "foldl pick (pre ! k) (r # rest) = foldl pick (?pre ! k) rest"
      using False unfolding nth by (simp add: pick_def)
    with Cons.IH[OF k a b] show ?thesis unfolding app by simp
  qed
qed

lemma reduce_pick_max:
  assumes "rs \<noteq> []"
  shows "\<exists>m<length rs. reduce pick rs = Inr (rs ! m)
           \<and> (\<forall>j<length rs. \<not> js_gt (congestion (rs ! j)) (congestion (rs ! m)))
           \<and> (\<forall>j<m. congestion (rs ! j) = NaN
                 \<or> js_gt (congestion (rs ! m)) (congestion (rs ! j)))"
proof -
  from assms obtain x rest where rs: "rs = x # rest" by (cases rs) auto
  have "\<exists>m<length ([x] @ rest). foldl pick ([x] ! 0) rest = ([x] @ rest) ! m
           \<and> (\<forall>j<length ([x] @ rest).
                 \<not> js_gt (congestion (([x] @ rest) ! j)) (congestion (([x] @ rest) ! m)))
           \<and> (\<forall>j<m. congestion (([x] @ rest) ! j) = NaN
                 \<or> js_gt (congestion (([x] @ rest) ! m)) (congestion (([x] @ rest) ! j)))"
    by (rule foldl_pick_max) (simp_all add: js_gt_irrefl)
  then show ?thesis unfolding rs by (simp add: reduce_def)
qed

lemma predict_loop_spec:
  "predict_loop ss hour day weather locs acc = Inr ps \<Longrightarrow>
   \<exists>ps'. ps = acc @ ps' \<and> length ps' = length locs
          \<and> (\<forall>i<length locs. predict_location ss hour day weather (locs ! i) = Inr (ps' ! i))"
proof (induction locs arbitrary: acc)
  case Nil
  then show ?case by simp
next
  case (Cons location rest)
  from Cons.prems obtain p where p: "predict_location ss hour day weather location = Inr p"
    and l: "predict_loop ss hour day weather rest (acc @ [p]) = Inr ps"
    by (auto split: sum.splits)
  from Cons.IH[OF l] obtain ps' where ps': "ps = (acc @ [p]) @ ps'" "length ps' = length rest"
    "\<forall>i<length rest. predict_location ss hour day weather (rest ! i) = Inr (ps' ! i)"
    by blast
  have "\<forall>i<length (location # rest).
          predict_location ss hour day weather ((location # rest) ! i) = Inr ((p # ps') ! i)"
  proof (intro allI impI)
    fix i assume "i < length (location # rest)"
    then show "predict_location ss hour day weather ((location # rest) ! i) = Inr ((p # ps') ! i)"
      using p ps'(3) by (cases i) simp_all
  qed
  with ps'(1,2) show ?case by (intro exI[of _ "p # ps'"]) simp
qed

lemma predict_loop_all_ok:
  "\<forall>loc\<in>set locs. \<exists>p. predict_location ss hour day weather loc = Inr p \<Longrightarrow>
   \<exists>ps. predict_loop ss hour day weather locs acc = Inr ps"
proof (induction locs arbitrary: acc)
  case Nil
  then show ?case by simp
next
  case (Cons location rest)
  then obtain p where p: "predict_location ss hour day weather location = Inr p" by auto
  from Cons.IH[of "acc @ [p]"] Cons.prems p show ?case by simp
qed

lemma predict_loop_abort:
  "predict_loop ss hour day weather locs acc = Inl e \<Longrightarrow>
   \<exists>loc\<in>set locs. predict_location ss hour day weather loc = Inl e"
proof (induction locs arbitrary: acc)
  case Nil
  then show ?case by simp
next
  case (Cons location rest)
  then show ?case by (cases "predict_location ss hour day weather location") auto
qed

lemma predict_location_no_models:
  "stage1 ss = None \<Longrightarrow> stage2 ss = None \<Longrightarrow>
   predict_location ss hour day weather location = Inl (Exn ''Error'' ''No models loaded'')"
  by (simp add: predict_location_def run_models_none await_def)

lemma predict_location_both:
  assumes "stage1 ss = Some s1" and "stage2 ss = Some s2"
  shows "\<exists>p. predict_location ss hour day weather location = Inr p"
proof -
  from run_models_both[OF assms] obtain r1 r2
    where "run_models ss (feature_vector location hour day weather) = Inr [r1, r2]" by blast
  then show ?thesis by (simp add: predict_location_def await_def reduce_def)
qed

lemma getSessions_resident:
  "stage1 (sessions st) = Some s1 \<Longrightarrow> stage2 (sessions st) = Some s2 \<Longrightarrow>
   getSessions env st = (Inr (sessions st), st)"
  by (simp add: getSessions_def)

lemma getSessions_success:
  assumes "getSessions env st = (Inr ss, st')"
  shows "sessions st' = ss \<and> (\<exists>s1 s2. stage1 ss = Some s1 \<and> stage2 ss = Some s2)"
  using assms
  by (auto simp add: getSessions_def Let_def split: if_splits sum.splits prod.splits)

lemma getSessions_failure:
  assumes "getSessions env st = (Inl e, st')"
  shows "st' = st\<lparr>loads := loads st + 1\<rparr>
         \<and> (readFile env (modelPath1 env) = Inl e \<or> readFile env (modelPath2 env) = Inl e
            \<or> (\<exists>b. InferenceSession_create env b = Inl e))"
  using assms
  by (auto simp add: getSessions_def Let_def Promise_all2_def split: if_splits sum.splits prod.splits)

lemma GET_success:
  assumes "GET env request st = (Inr \<lparr>body = Predictions resp, status = 200\<rparr>, st')"
  shows "\<exists>ss. weather_call env request = Inr (r_weather resp)
           \<and> getSessions env st = (Inr ss, st')
           \<and> predict_loop ss (resolved_hour env request) (resolved_day env request)
                (r_weather resp) (cameraLocations env) [] = Inr (r_predictions resp)
           \<and> r_hour resp = resolved_hour env request
           \<and> r_day resp = resolved_day env request"
  using assms
  by (auto simp add: GET_def GET_try_def Let_def error_response_def await_def
      split: sum.splits prod.splits)

lemma GET_failure:
  "GET_try env request st = (Inl e, st') \<Longrightarrow>
   GET env request st = (await (catch_details e) (\<lambda>d. Inr (error_response d)), st')"
  by (simp add: GET_def)

section \<open>Properties of inference, of the features and of the batch\<close>

lemmas eval_defs =
  GET_def GET_try_def weather_call_def resolved_hour_def resolved_day_def custom_or_current_def
  centerLat_def centerLng_def getSessions_def Promise_all2_def modelPath1_def modelPath2_def
  join_slash_def predict_location_def run_models_def feature_vector_def reduce_def pick_def
  CONGESTION_LABELS_def error_response_def code_units_def parse_magnitude_def
  runInference_def runInference_try_def session_output_def new_Tensor_def await_def key0_def
  decode_def getVal_def Math_max_def Math_min_def argmax_loop.simps
  parseInt_def is_StrWhiteSpaceChar_def is_digit_in_def digit_value_def digits_value_def
  env0_def env_no_models_def env_no_weather_def env_weather_undefined_def env_nan_def
  request_plain_def request_17_def request_abc_def
  initial_state_def const_session_def failing_session_def features0_def weather0_def
  exact_add_def exact_div_def Let_def

lemma GET_env0_17:
  "GET env0 request_17 initial_state
     = (Inr \<lparr>body = Predictions batch_17, status = 200\<rparr>, state_loaded)"
  by (simp add: eval_defs batch_17_def state_loaded_def)

text \<open>
  C4: \<open>runInference\<close> always returns a result and never raises. Whenever its \<open>try\<close>
  block fails, it returns exactly congestion 0 (Low) with probability 0; this covers a
  failing tensor construction (a feature vector that does not have eight entries), a
  rejected run of the session, and a failing decoding (the session has no output under
  its first output name).
\<close>

theorem runInference_fallback:
  "(\<exists>r. runInference session inputData = Inr r)
   \<and> (\<forall>e. runInference_try session inputData = Inl e \<longrightarrow>
          runInference session inputData = Inr \<lparr>congestion = Fin 0, probability = Fin 0\<rparr>)
   \<and> (length inputData \<noteq> 8 \<longrightarrow>
          runInference session inputData = Inr \<lparr>congestion = Fin 0, probability = Fin 0\<rparr>)
   \<and> (\<forall>t e. new_Tensor ''float32'' (Float32Array_from inputData) [1, 8] = Inr t
              \<and> run session (key0 (inputNames session), t) = Inl e \<longrightarrow>
          runInference session inputData = Inr \<lparr>congestion = Fin 0, probability = Fin 0\<rparr>)
   \<and> (\<forall>t output. new_Tensor ''float32'' (Float32Array_from inputData) [1, 8] = Inr t
              \<and> run session (key0 (inputNames session), t) = Inr output
              \<and> output (key0 (outputNames session)) = None \<longrightarrow>
          runInference session inputData = Inr \<lparr>congestion = Fin 0, probability = Fin 0\<rparr>)"
proof (intro conjI allI impI)
  show "\<exists>r. runInference session inputData = Inr r" by (rule runInference_total)
next
  fix e assume "runInference_try session inputData = Inl e"
  then show "runInference session inputData = Inr \<lparr>congestion = Fin 0, probability = Fin 0\<rparr>"
    by (simp add: runInference_def)
next
  assume "length inputData \<noteq> 8"
  then have "session_output session inputData
               = Inl (Exn ''Error'' ''Tensor size does not match data length'')"
    by (auto simp add: session_output_def new_Tensor_def await_def)
  then show "runInference session inputData = Inr \<lparr>congestion = Fin 0, probability = Fin 0\<rparr>"
    by (rule runInference_caught)
next
  fix t e
  assume "new_Tensor ''float32'' (Float32Array_from inputData) [1, 8] = Inr t
            \<and> run session (key0 (inputNames session), t) = Inl e"
  then have "session_output session inputData = Inl e"
    by (simp add: session_output_def await_def)
  then show "runInference session inputData = Inr \<lparr>congestion = Fin 0, probability = Fin 0\<rparr>"
    by (rule runInference_caught)
next
  fix t outp
  assume "new_Tensor ''float32'' (Float32Array_from inputData) [1, 8] = Inr t
            \<and> run session (key0 (inputNames session), t) = Inr outp
            \<and> outp (key0 (outputNames session)) = None"
  then have "session_output session inputData
               = Inl (Exn ''TypeError'' ''Cannot read properties of undefined'')"
    by (simp add: session_output_def await_def)
  then show "runInference session inputData = Inr \<lparr>congestion = Fin 0, probability = Fin 0\<rparr>"
    by (rule runInference_caught)
qed

theorem runInference_fallback_witness:
  "runInference_try (failing_session (Exn ''Error'' ''session crashed'')) features0
     = Inl (Exn ''Error'' ''session crashed'')
   \<and> runInference (failing_session (Exn ''Error'' ''session crashed'')) features0
     = Inr \<lparr>congestion = Fin 0, probability = Fin 0\<rparr>
   \<and> length features_short \<noteq> 8
   \<and> runInference (const_session [Fin 0.1, Fin 0.7, Fin 0.2]) features_short
     = Inr \<lparr>congestion = Fin 0, probability = Fin 0\<rparr>
   \<and> run no_output_session
        (key0 (inputNames no_output_session),
         \<lparr>tensor_type = ''float32'', tensor_data = Float32Array_from features0,
          dims = [1, 8]\<rparr>) = Inr Map.empty
   \<and> runInference no_output_session features0
     = Inr \<lparr>congestion = Fin 0, probability = Fin 0\<rparr>"
proof -
  have a: "runInference_try (failing_session (Exn ''Error'' ''session crashed'')) features0
     = Inl (Exn ''Error'' ''session crashed'')"
    by (simp add: runInference_try_def session_output_def new_Tensor_def await_def key0_def
        failing_session_def features0_def)
  then have b: "runInference (failing_session (Exn ''Error'' ''session crashed'')) features0
     = Inr \<lparr>congestion = Fin 0, probability = Fin 0\<rparr>"
    by (simp add: runInference_def)
  have c: "length features_short \<noteq> 8" by (simp add: features_short_def)
  have d: "runInference (const_session [Fin 0.1, Fin 0.7, Fin 0.2]) features_short
     = Inr \<lparr>congestion = Fin 0, probability = Fin 0\<rparr>"
    by (simp add: runInference_def runInference_try_def session_output_def new_Tensor_def
        await_def features_short_def)
  have e: "run no_output_session
        (key0 (inputNames no_output_session),
         \<lparr>tensor_type = ''float32'', tensor_data = Float32Array_from features0,
          dims = [1, 8]\<rparr>) = Inr Map.empty"
    by (simp add: no_output_session_def)
  have f: "runInference no_output_session features0
     = Inr \<lparr>congestion = Fin 0, probability = Fin 0\<rparr>"
    by (simp add: runInference_def runInference_try_def session_output_def new_Tensor_def
        await_def key0_def no_output_session_def features0_def)
  show ?thesis
    using runInference_fallback[of "failing_session (Exn ''Error'' ''session crashed'')" features0]
      runInference_fallback[of "const_session [Fin 0.1, Fin 0.7, Fin 0.2]" features_short]
      runInference_fallback[of no_output_session features0]
    by (intro conjI a b c d e f)
qed

text \<open>
  C8, as amended: \<open>runInference\<close> always returns a result, and the result is a
  well-formed ModelInferenceResult (congestion one of 0, 1, 2 and probability between 0
  and 1) exactly when the inference failed, or the output vector has at least three
  entries, its first entry is not \<open>NaN\<close>, and one of its first three entries lies
  between 0 and 1 with no entry strictly greater than it, or the output vector has one
  or two entries and its first entry is not \<open>NaN\<close>.
\<close>

theorem runInference_well_formed:
  "\<exists>r. runInference session inputData = Inr r
     \<and> (wf_ModelInferenceResult r \<longleftrightarrow>
          (\<exists>e. runInference_try session inputData = Inl e)
          \<or> (\<exists>out. session_output session inputData = Inr out
                \<and> (if 3 \<le> length out
                    then out ! 0 \<noteq> NaN
                         \<and> (\<exists>k<3. unit_interval (out ! k)
                                \<and> (\<forall>j<length out. \<not> js_gt (out ! j) (out ! k)))
                    else out \<noteq> [] \<and> out ! 0 \<noteq> NaN)))"
proof (cases "session_output session inputData")
  case (Inl e)
  then have t: "runInference_try session inputData = Inl e"
    by (simp add: runInference_try_def await_def)
  then have "runInference session inputData = Inr \<lparr>congestion = Fin 0, probability = Fin 0\<rparr>"
    by (simp add: runInference_def)
  moreover have "wf_ModelInferenceResult \<lparr>congestion = Fin 0, probability = Fin 0\<rparr>"
    by (simp add: wf_ModelInferenceResult_def unit_interval_def)
  ultimately show ?thesis using t by blast
next
  case (Inr out)
  then have nofail: "\<not> (\<exists>e. runInference_try session inputData = Inl e)"
    by (simp add: runInference_try_def await_def)
  have r: "runInference session inputData = Inr (decode out)"
    by (rule runInference_decode[OF Inr])
  have "wf_ModelInferenceResult (decode out) \<longleftrightarrow>
          (if 3 \<le> length out
           then out ! 0 \<noteq> NaN
                \<and> (\<exists>k<3. unit_interval (out ! k)
                       \<and> (\<forall>j<length out. \<not> js_gt (out ! j) (out ! k)))
           else out \<noteq> [] \<and> out ! 0 \<noteq> NaN)"
  proof (cases "3 \<le> length out")
    case True
    note len = this
    show ?thesis
    proof (cases "out ! 0 = NaN")
      case True
      from decode_argmax_NaN[OF len True] len True show ?thesis
        by (simp add: wf_ModelInferenceResult_def unit_interval_def)
    next
      case False
      from decode_argmax_number[OF len False] obtain k where
        k: "k < length out" "decode out = \<lparr>congestion = Fin (real k), probability = out ! k\<rparr>"
           "out ! k \<noteq> NaN"
           "\<forall>j<length out. out ! j = NaN \<or> out ! j = out ! k \<or> js_gt (out ! k) (out ! j)"
           "\<forall>j<k. out ! j = NaN \<or> js_gt (out ! k) (out ! j)"
        by blast
      have nogreater: "\<forall>j<length out. \<not> js_gt (out ! j) (out ! k)"
      proof (intro allI impI)
        fix j assume "j < length out"
        with k(4) have "out ! j = NaN \<or> out ! j = out ! k \<or> js_gt (out ! k) (out ! j)" by simp
        then show "\<not> js_gt (out ! j) (out ! k)"
          using js_gt_irrefl js_gt_trans by (metis js_gt.simps(1))
      qed
      have wf: "wf_ModelInferenceResult (decode out) \<longleftrightarrow> k < 3 \<and> unit_interval (out ! k)"
      proof -
        have "Fin (real k) \<in> {Fin 0, Fin 1, Fin 2} \<longleftrightarrow> k < 3" by auto
        then show ?thesis unfolding k(2) by (simp add: wf_ModelInferenceResult_def)
      qed
      have "(\<exists>i<3. unit_interval (out ! i) \<and> (\<forall>j<length out. \<not> js_gt (out ! j) (out ! i)))
              \<longleftrightarrow> k < 3 \<and> unit_interval (out ! k)"
      proof
        assume "k < 3 \<and> unit_interval (out ! k)"
        with nogreater
        show "\<exists>i<3. unit_interval (out ! i) \<and> (\<forall>j<length out. \<not> js_gt (out ! j) (out ! i))"
          by blast
      next
        assume "\<exists>i<3. unit_interval (out ! i) \<and> (\<forall>j<length out. \<not> js_gt (out ! j) (out ! i))"
        then obtain i where i: "i < 3" "unit_interval (out ! i)"
          "\<forall>j<length out. \<not> js_gt (out ! j) (out ! i)" by blast
        from i(2) have inum: "out ! i \<noteq> NaN" by (auto simp add: unit_interval_def)
        from i(1) len have ilen: "i < length out" by simp
        have ki: "k \<le> i"
        proof (rule ccontr)
          assume "\<not> k \<le> i"
          then have "i < k" by simp
          with k(5) inum have "js_gt (out ! k) (out ! i)" by blast
          with i(3) k(1) show False by blast
        qed
        have "\<not> js_gt (out ! k) (out ! i)" using i(3) k(1) by blast
        moreover have "\<not> js_gt (out ! i) (out ! k)" using nogreater ilen by blast
        ultimately have "out ! k = out ! i" using js_gt_total[OF k(3) inum] by blast
        with i(1,2) ki show "k < 3 \<and> unit_interval (out ! k)" by simp
      qed
      with wf len False show ?thesis by simp
    qed
  next
    case False
    then have len: "length out < 3" by simp
    show ?thesis
    proof (cases "out = [] \<or> out ! 0 = NaN")
      case True
      then have "out = [] \<or> (\<exists>rest. out = NaN # rest)" by (cases out) auto
      from decode_no_number[OF this len] True False show ?thesis
        by (auto simp add: wf_ModelInferenceResult_def)
    next
      case False
      then obtain v rest where out: "out = v # rest" and v: "v \<noteq> NaN" by (cases out) auto
      from len out have "length (v # rest) < 3" by simp
      from decode_regression[OF this v] obtain c :: int where
        c: "decode (v # rest) = \<lparr>congestion = Fin (of_int c), probability = Fin 1\<rparr>"
           "0 \<le> c" "c \<le> 2" by blast
      from c(2,3) have "c = 0 \<or> c = 1 \<or> c = 2" by linarith
      then have "Fin (of_int c) \<in> {Fin 0, Fin 1, Fin 2}" by auto
      then have "wf_ModelInferenceResult (decode out)"
        unfolding out c(1) by (simp add: wf_ModelInferenceResult_def unit_interval_def)
      with False len show ?thesis by simp
    qed
  qed
  with r nofail Inr show ?thesis by simp
qed

theorem runInference_well_formed_witness:
  "runInference (const_session [Fin 0.9, Fin 0.1, Fin 0, Fin 0]) features0
       = Inr \<lparr>congestion = Fin 0, probability = Fin 0.9\<rparr>
   \<and> wf_ModelInferenceResult \<lparr>congestion = Fin 0, probability = Fin 0.9\<rparr>
   \<and> runInference (const_session [Fin (- 1), Fin 0.5, Fin 0.2]) features0
       = Inr \<lparr>congestion = Fin 1, probability = Fin 0.5\<rparr>
   \<and> wf_ModelInferenceResult \<lparr>congestion = Fin 1, probability = Fin 0.5\<rparr>
   \<and> runInference (const_session [Fin 2.6]) features0
       = Inr \<lparr>congestion = Fin 2, probability = Fin 1\<rparr>
   \<and> wf_ModelInferenceResult \<lparr>congestion = Fin 2, probability = Fin 1\<rparr>
   \<and> runInference (const_session [Fin 0, Fin 0, Fin 0, Fin 1]) features0
       = Inr \<lparr>congestion = Fin 3, probability = Fin 1\<rparr>
   \<and> \<not> wf_ModelInferenceResult \<lparr>congestion = Fin 3, probability = Fin 1\<rparr>"
proof -
  have a: "runInference (const_session [Fin 0.9, Fin 0.1, Fin 0, Fin 0]) features0
       = Inr \<lparr>congestion = Fin 0, probability = Fin 0.9\<rparr>"
    by (simp add: runInference_decode[OF session_output_const] decode_def argmax_loop.simps
        getVal_def)
  have b: "runInference (const_session [Fin (- 1), Fin 0.5, Fin 0.2]) features0
       = Inr \<lparr>congestion = Fin 1, probability = Fin 0.5\<rparr>"
    by (simp add: runInference_decode[OF session_output_const] decode_def argmax_loop.simps
        getVal_def)
  have c: "runInference (const_session [Fin 2.6]) features0
       = Inr \<lparr>congestion = Fin 2, probability = Fin 1\<rparr>"
    by (simp add: runInference_decode[OF session_output_const] decode_def getVal_def
        Math_max_def Math_min_def)
  have d: "runInference (const_session [Fin 0, Fin 0, Fin 0, Fin 1]) features0
       = Inr \<lparr>congestion = Fin 3, probability = Fin 1\<rparr>"
    by (simp add: runInference_decode[OF session_output_const] decode_def argmax_loop.simps
        getVal_def)
  have wa: "wf_ModelInferenceResult \<lparr>congestion = Fin 0, probability = Fin 0.9\<rparr>"
    and wb: "wf_ModelInferenceResult \<lparr>congestion = Fin 1, probability = Fin 0.5\<rparr>"
    and wc: "wf_ModelInferenceResult \<lparr>congestion = Fin 2, probability = Fin 1\<rparr>"
    and wd: "\<not> wf_ModelInferenceResult \<lparr>congestion = Fin 3, probability = Fin 1\<rparr>"
    by (simp_all add: wf_ModelInferenceResult_def unit_interval_def)
  show ?thesis
    using runInference_well_formed[of "const_session [Fin 0.9, Fin 0.1, Fin 0, Fin 0]" features0]
      runInference_well_formed[of "const_session [Fin (- 1), Fin 0.5, Fin 0.2]" features0]
      runInference_well_formed[of "const_session [Fin 2.6]" features0]
      runInference_well_formed[of "const_session [Fin 0, Fin 0, Fin 0, Fin 1]" features0]
    by (intro conjI a b c d wa wb wc wd)
qed

text \<open>
  An output vector of four scores whose greatest is the last decodes to congestion 3,
  and an output vector of three scores with greatest score 5 decodes to probability 5:
  neither result is well-formed.
\<close>

theorem runInference_well_formed_counterexample:
  "runInference (const_session [Fin 0, Fin 0, Fin 0, Fin 1]) features0
     = Inr \<lparr>congestion = Fin 3, probability = Fin 1\<rparr>
   \<and> \<not> wf_ModelInferenceResult \<lparr>congestion = Fin 3, probability = Fin 1\<rparr>
   \<and> runInference (const_session [Fin 5, Fin 0, Fin 0]) features0
     = Inr \<lparr>congestion = Fin 0, probability = Fin 5\<rparr>
   \<and> \<not> wf_ModelInferenceResult \<lparr>congestion = Fin 0, probability = Fin 5\<rparr>"
  by (simp add: session_output_const runInference_decode decode_def argmax_loop.simps getVal_def
      wf_ModelInferenceResult_def unit_interval_def)


text \<open>
  C6: the array built for a location has exactly eight entries, in the order latitude,
  longitude, hour, day, temperature, precipitation, rain, wind speed. In a successful
  batch, for the location at every index, this array, filled with the location's
  coordinates and the batch's resolved hour, day and weather, is what both models are
  run on; the tensor built from it, which is the one passed to the run of a session,
  holds these eight entries, each rounded to single precision, in the same order; and
  the prediction of that location is made from the
  two results.
\<close>

theorem feature_vector_order:
  assumes "GET env request st = (Inr \<lparr>body = Predictions resp, status = 200\<rparr>, st')"
    and "i < length (cameraLocations env)"
  shows "\<exists>s1 s2 r1 r2 v.
           v = [latitude (cameraLocations env ! i), longitude (cameraLocations env ! i),
                r_hour resp, r_day resp,
                temperature_2m (r_weather resp), precipitation (r_weather resp),
                rain (r_weather resp), wind_speed_10m (r_weather resp)]
         \<and> length v = 8
         \<and> r_hour resp = resolved_hour env request
         \<and> r_day resp = resolved_day env request
         \<and> weather_call env request = Inr (r_weather resp)
         \<and> feature_vector (cameraLocations env ! i) (r_hour resp) (r_day resp) (r_weather resp) = v
         \<and> stage1 (sessions st') = Some s1 \<and> stage2 (sessions st') = Some s2
         \<and> runInference s1 v = Inr r1 \<and> runInference s2 v = Inr r2
         \<and> new_Tensor ''float32'' (Float32Array_from v) [1, 8]
             = Inr \<lparr>tensor_type = ''float32'', tensor_data = map fround v, dims = [1, 8]\<rparr>
         \<and> (\<forall>s. session_output s v
                = await (run s (key0 (inputNames s),
                           \<lparr>tensor_type = ''float32'', tensor_data = map fround v,
                            dims = [1, 8]\<rparr>))
                    (\<lambda>outp. case outp (key0 (outputNames s)) of
                       None \<Rightarrow> Inl (Exn ''TypeError'' ''Cannot read properties of undefined'')
                     | Some outputData \<Rightarrow> Inr outputData))
         \<and> p_congestion (r_predictions resp ! i) = congestion (pick r1 r2)
         \<and> p_probability (r_predictions resp ! i) = probability (pick r1 r2)
         \<and> (\<forall>location hour day weather.
               feature_vector location hour day weather
                 = [latitude location, longitude location, hour, day,
                    temperature_2m weather, precipitation weather, rain weather,
                    wind_speed_10m weather])"
proof -
  let ?loc = "cameraLocations env ! i"
  let ?v = "[latitude ?loc, longitude ?loc, r_hour resp, r_day resp,
             temperature_2m (r_weather resp), precipitation (r_weather resp),
             rain (r_weather resp), wind_speed_10m (r_weather resp)]"
  from GET_success[OF assms(1)] obtain ss where
    w: "weather_call env request = Inr (r_weather resp)" and
    g: "getSessions env st = (Inr ss, st')" and
    h: "r_hour resp = resolved_hour env request" and
    d: "r_day resp = resolved_day env request" and
    l: "predict_loop ss (r_hour resp) (r_day resp) (r_weather resp) (cameraLocations env) []
          = Inr (r_predictions resp)"
    by auto
  from getSessions_success[OF g] obtain s1 s2 where
    ss: "sessions st' = ss" "stage1 ss = Some s1" "stage2 ss = Some s2" by blast
  have fv: "feature_vector ?loc (r_hour resp) (r_day resp) (r_weather resp) = ?v"
    by (simp add: feature_vector_def)
  from predict_loop_spec[OF l] assms(2)
  have p: "predict_location ss (r_hour resp) (r_day resp) (r_weather resp) ?loc
             = Inr (r_predictions resp ! i)"
    by auto
  from run_models_both[OF ss(2,3), of ?v] obtain r1 r2 where
    r: "runInference s1 ?v = Inr r1" "runInference s2 ?v = Inr r2"
       "run_models ss ?v = Inr [r1, r2]" by blast
  have "predict_location ss (r_hour resp) (r_day resp) (r_weather resp) ?loc
          = Inr \<lparr>p_location = name ?loc, p_latitude = latitude ?loc,
                 p_longitude = longitude ?loc, p_congestion = congestion (pick r1 r2),
                 p_congestionLabel = CONGESTION_LABELS (congestion (pick r1 r2)),
                 p_probability = probability (pick r1 r2)\<rparr>"
    using r(3) by (simp add: predict_location_def fv await_def reduce_def)
  with p have eq: "r_predictions resp ! i
          = \<lparr>p_location = name ?loc, p_latitude = latitude ?loc,
             p_longitude = longitude ?loc, p_congestion = congestion (pick r1 r2),
             p_congestionLabel = CONGESTION_LABELS (congestion (pick r1 r2)),
             p_probability = probability (pick r1 r2)\<rparr>"
    by simp
  have c: "p_congestion (r_predictions resp ! i) = congestion (pick r1 r2)"
    and q: "p_probability (r_predictions resp ! i) = probability (pick r1 r2)"
    unfolding eq by simp_all
  have t: "new_Tensor ''float32'' (Float32Array_from ?v) [1, 8]
             = Inr \<lparr>tensor_type = ''float32'', tensor_data = map fround ?v, dims = [1, 8]\<rparr>"
    by (simp add: new_Tensor_def Float32Array_from_def)
  have so: "\<forall>s. session_output s ?v
                = await (run s (key0 (inputNames s),
                           \<lparr>tensor_type = ''float32'', tensor_data = map fround ?v,
                            dims = [1, 8]\<rparr>))
                    (\<lambda>outp. case outp (key0 (outputNames s)) of
                       None \<Rightarrow> Inl (Exn ''TypeError'' ''Cannot read properties of undefined'')
                     | Some outputData \<Rightarrow> Inr outputData)"
    unfolding session_output_def t by (simp add: await_def)
  have n: "length ?v = 8" by simp
  have u: "\<forall>location hour day weather.
               feature_vector location hour day weather
                 = [latitude location, longitude location, hour, day,
                    temperature_2m weather, precipitation weather, rain weather,
                    wind_speed_10m weather]"
    by (simp add: feature_vector_def)
  show ?thesis
    using n h d w fv ss(2,3) r(1,2) t so c q u unfolding ss(1)[symmetric]
    by (intro exI[of _ s1] exI[of _ s2] exI[of _ r1] exI[of _ r2] exI[of _ ?v] conjI refl)
       assumption+
qed

theorem feature_vector_order_witness:
  "GET env0 request_17 initial_state
     = (Inr \<lparr>body = Predictions batch_17, status = 200\<rparr>, state_loaded)
   \<and> (0::nat) < length (cameraLocations env0)
   \<and> feature_vector (cameraLocations env0 ! 0) (r_hour batch_17) (r_day batch_17)
        (r_weather batch_17)
       = [Fin 24.86, Fin 67.01, Fin 17, Fin 3, Fin 30, Fin 0, Fin 0, Fin 12]
   \<and> fround (Fin 24.86) = Fin (1629225 / 65536)"
proof -
  have n: "(0::nat) < length (cameraLocations env0)" by (simp add: env0_def)
  have f: "feature_vector (cameraLocations env0 ! 0) (r_hour batch_17) (r_day batch_17)
        (r_weather batch_17)
       = [Fin 24.86, Fin 67.01, Fin 17, Fin 3, Fin 30, Fin 0, Fin 0, Fin 12]"
    by (simp add: feature_vector_def env0_def batch_17_def weather0_def)
  show ?thesis
    using feature_vector_order[OF GET_env0_17 n]
    by (intro conjI GET_env0_17 n f fround_24_86)
qed

section \<open>\<open>parseInt\<close> and the resolved time\<close>

lemma digit10_code: "is_digit_in 10 c \<longleftrightarrow> 48 \<le> c \<and> c \<le> 57"
  by (auto simp add: is_digit_in_def digit_value_def split: if_splits)

lemma digit10_plain:
  assumes "is_digit_in 10 c"
  shows "\<not> is_StrWhiteSpaceChar c" and "c \<noteq> 45" and "c \<noteq> 43" and "c \<noteq> 120" and "c \<noteq> 88"
  using assms by (auto simp add: digit10_code is_StrWhiteSpaceChar_def)

lemma dropWhile_white_space:
  assumes "\<forall>c\<in>set ws. is_StrWhiteSpaceChar c" and "t = [] \<or> \<not> is_StrWhiteSpaceChar (hd t)"
  shows "dropWhile is_StrWhiteSpaceChar (ws @ t) = t"
proof -
  have "dropWhile is_StrWhiteSpaceChar (ws @ t) = dropWhile is_StrWhiteSpaceChar t"
    using assms(1) by (simp add: dropWhile_append2)
  also have "\<dots> = t" using assms(2) by (cases t) auto
  finally show ?thesis .
qed

lemma takeWhile_digits:
  assumes "\<forall>c\<in>set ds. P c" and "rest = [] \<or> \<not> P (hd rest)"
  shows "takeWhile P (ds @ rest) = ds"
proof -
  have "takeWhile P rest = []" using assms(2) by (cases rest) auto
  with assms(1) show ?thesis by (simp add: takeWhile_append2)
qed

text \<open>What is parsed after white space and an optional sign.\<close>

lemma parseInt_sign:
  assumes "\<forall>c\<in>set ws. is_StrWhiteSpaceChar c" and "sg \<in> {[], [43], [45]}"
    and "sg = [] \<longrightarrow> u = [] \<or> (\<not> is_StrWhiteSpaceChar (hd u) \<and> hd u \<noteq> 43 \<and> hd u \<noteq> 45)"
  shows "parseInt (ws @ sg @ u)
           = (case parse_magnitude u of
                None \<Rightarrow> NaN
              | Some mathInt \<Rightarrow> to_double (of_int (sign_of sg * int mathInt)))"
proof -
  have nws: "\<not> is_StrWhiteSpaceChar 43" "\<not> is_StrWhiteSpaceChar 45"
    by (simp_all add: is_StrWhiteSpaceChar_def)
  from assms(2) consider "sg = []" | "sg = [43]" | "sg = [45]" by auto
  then show ?thesis
  proof cases
    case 1
    with assms(3) have u: "u = [] \<or> (\<not> is_StrWhiteSpaceChar (hd u) \<and> hd u \<noteq> 43 \<and> hd u \<noteq> 45)"
      by simp
    then have d: "dropWhile is_StrWhiteSpaceChar (ws @ u) = u"
      using dropWhile_white_space[OF assms(1), of u] by blast
    have a: "\<not> (u \<noteq> [] \<and> hd u = 45)" and b: "\<not> (u \<noteq> [] \<and> (hd u = 43 \<or> hd u = 45))"
      using u by auto
    have s: "sign_of [] = 1" by (simp add: sign_of_def)
    show ?thesis
      unfolding 1 s by (simp only: parseInt_def Let_def append_Nil d a b if_False)
  next
    case 2
    have d: "dropWhile is_StrWhiteSpaceChar (ws @ 43 # u) = 43 # u"
      using dropWhile_white_space[OF assms(1), of "43 # u"] nws by simp
    have s: "sign_of [43] = 1" by (simp add: sign_of_def)
    show ?thesis
      unfolding 2 s by (simp add: parseInt_def Let_def d)
  next
    case 3
    have d: "dropWhile is_StrWhiteSpaceChar (ws @ 45 # u) = 45 # u"
      using dropWhile_white_space[OF assms(1), of "45 # u"] nws by simp
    have s: "sign_of [45] = - 1" by (simp add: sign_of_def)
    show ?thesis
      unfolding 3 s by (simp add: parseInt_def Let_def d)
  qed
qed

lemma parse_magnitude_decimal:
  assumes "ds \<noteq> []" and "\<forall>c\<in>set ds. is_digit_in 10 c"
    and "rest = [] \<or> \<not> is_digit_in 10 (hd rest)"
    and "\<not> (ds = [48] \<and> rest \<noteq> [] \<and> hd rest \<in> {120, 88})"
  shows "parse_magnitude (ds @ rest) = Some (digits_value 10 ds)"
proof -
  have nohex: "\<not> (take 2 (ds @ rest) = [48, 120] \<or> take 2 (ds @ rest) = [48, 88])"
  proof (cases ds)
    case Nil
    with assms(1) show ?thesis by simp
  next
    case (Cons d ds')
    show ?thesis
    proof (cases ds')
      case Nil
      with Cons assms(4) show ?thesis by (cases rest) auto
    next
      case (Cons d2 ds'')
      with \<open>ds = d # ds'\<close> assms(2) have "is_digit_in 10 d2" by simp
      from digit10_plain(4,5)[OF this] Cons \<open>ds = d # ds'\<close> show ?thesis by simp
    qed
  qed
  have tw: "takeWhile (is_digit_in 10) (ds @ rest) = ds"
    by (rule takeWhile_digits[OF assms(2,3)])
  have "parse_magnitude (ds @ rest) = (if ds = [] then None else Some (digits_value 10 ds))"
    by (simp only: parse_magnitude_def Let_def nohex if_False tw)
  with assms(1) show ?thesis by simp
qed

lemma parse_magnitude_hex:
  assumes "x = 120 \<or> x = 88" and "\<forall>c\<in>set hs. is_digit_in 16 c"
    and "rest = [] \<or> \<not> is_digit_in 16 (hd rest)"
  shows "parse_magnitude ([48, x] @ hs @ rest)
           = (if hs = [] then None else Some (digits_value 16 hs))"
proof -
  have hex: "take 2 ([48, x] @ hs @ rest) = [48, 120] \<or> take 2 ([48, x] @ hs @ rest) = [48, 88]"
    using assms(1) by auto
  have dr: "drop 2 ([48, x] @ hs @ rest) = hs @ rest" by simp
  have tw: "takeWhile (is_digit_in 16) (hs @ rest) = hs"
    by (rule takeWhile_digits[OF assms(2,3)])
  show ?thesis
    by (simp only: parse_magnitude_def Let_def hex if_True dr tw)
qed

lemma parse_magnitude_none:
  assumes "u = [] \<or> \<not> is_digit_in 10 (hd u)"
  shows "parse_magnitude u = None"
proof -
  have z: "is_digit_in 10 48" by (simp add: digit10_code)
  have nohex: "\<not> (take 2 u = [48, 120] \<or> take 2 u = [48, 88])"
  proof (cases u)
    case Nil
    then show ?thesis by simp
  next
    case (Cons c rest)
    with assms z have "c \<noteq> 48" by auto
    with Cons show ?thesis by (cases rest) auto
  qed
  have tw: "takeWhile (is_digit_in 10) u = []" using assms by (cases u) auto
  show ?thesis
    by (simp only: parse_magnitude_def Let_def nohex if_False tw if_True refl)
qed

lemma parseInt_decimal:
  assumes "\<forall>c\<in>set ws. is_StrWhiteSpaceChar c" and "sg \<in> {[], [43], [45]}"
    and "ds \<noteq> []" and "\<forall>c\<in>set ds. is_digit_in 10 c"
    and "rest = [] \<or> \<not> is_digit_in 10 (hd rest)"
    and "\<not> (ds = [48] \<and> rest \<noteq> [] \<and> hd rest \<in> {120, 88})"
  shows "parseInt (ws @ sg @ ds @ rest) = to_double (of_int (sign_of sg * int (digits_value 10 ds)))"
proof -
  from assms(3,4) have "is_digit_in 10 (hd ds)" by (cases ds) auto
  from digit10_plain(1,2,3)[OF this] assms(3)
  have "sg = [] \<longrightarrow> ds @ rest = []
          \<or> (\<not> is_StrWhiteSpaceChar (hd (ds @ rest)) \<and> hd (ds @ rest) \<noteq> 43 \<and> hd (ds @ rest) \<noteq> 45)"
    by simp
  from parseInt_sign[OF assms(1,2) this] parse_magnitude_decimal[OF assms(3,4,5,6)]
  show ?thesis by simp
qed

lemma parseInt_hex:
  assumes "\<forall>c\<in>set ws. is_StrWhiteSpaceChar c" and "sg \<in> {[], [43], [45]}"
    and "x = 120 \<or> x = 88" and "\<forall>c\<in>set hs. is_digit_in 16 c"
    and "rest = [] \<or> \<not> is_digit_in 16 (hd rest)"
  shows "parseInt (ws @ sg @ [48, x] @ hs @ rest)
           = (if hs = [] then NaN else to_double (of_int (sign_of sg * int (digits_value 16 hs))))"
proof -
  have "\<not> is_StrWhiteSpaceChar 48" by (simp add: is_StrWhiteSpaceChar_def)
  then have "sg = [] \<longrightarrow> [48, x] @ hs @ rest = []
          \<or> (\<not> is_StrWhiteSpaceChar (hd ([48, x] @ hs @ rest)) \<and> hd ([48, x] @ hs @ rest) \<noteq> 43
             \<and> hd ([48, x] @ hs @ rest) \<noteq> 45)"
    by simp
  from parseInt_sign[OF assms(1,2) this] parse_magnitude_hex[OF assms(3,4,5)]
  show ?thesis by simp
qed

lemma parseInt_no_digit:
  assumes "\<forall>c\<in>set ws. is_StrWhiteSpaceChar c" and "sg \<in> {[], [43], [45]}"
    and "u = [] \<or> (\<not> is_digit_in 10 (hd u)
                   \<and> (sg = [] \<longrightarrow> \<not> is_StrWhiteSpaceChar (hd u) \<and> hd u \<noteq> 43 \<and> hd u \<noteq> 45))"
  shows "parseInt (ws @ sg @ u) = NaN"
proof -
  from assms(3)
  have a: "sg = [] \<longrightarrow> u = [] \<or> (\<not> is_StrWhiteSpaceChar (hd u) \<and> hd u \<noteq> 43 \<and> hd u \<noteq> 45)"
    and b: "u = [] \<or> \<not> is_digit_in 10 (hd u)" by auto
  from parseInt_sign[OF assms(1,2) a] parse_magnitude_none[OF b] show ?thesis by simp
qed

text \<open>The value of a digit string, most significant digit first.\<close>

lemma digits_value_snoc:
  "digit_value c = Some v \<Longrightarrow> digits_value R (ds @ [c]) = digits_value R ds * R + v"
  by (simp add: digits_value_def)

lemma parseInt_abc: "parseInt (code_units ''abc'') = NaN"
  by (simp add: parseInt_def parse_magnitude_def code_units_def is_StrWhiteSpaceChar_def
      is_digit_in_def digit_value_def)

lemma parseInt_17: "parseInt (code_units ''17'') = Fin 17"
  by (simp add: parseInt_def parse_magnitude_def code_units_def is_StrWhiteSpaceChar_def
      is_digit_in_def digit_value_def digits_value_def)

lemma parseInt_3: "parseInt (code_units ''3'') = Fin 3"
  by (simp add: parseInt_def parse_magnitude_def code_units_def is_StrWhiteSpaceChar_def
      is_digit_in_def digit_value_def digits_value_def)

lemma parseInt_12abc: "parseInt (code_units ''12abc'') = Fin 12"
  by (simp add: parseInt_def parse_magnitude_def code_units_def is_StrWhiteSpaceChar_def
      is_digit_in_def digit_value_def digits_value_def)

lemma parseInt_minus_hex: "parseInt (code_units ''  -0x1F'') = Fin (- 31)"
  by (simp add: parseInt_def parse_magnitude_def code_units_def is_StrWhiteSpaceChar_def
      is_digit_in_def digit_value_def digits_value_def)

lemma parseInt_nbsp_17: "parseInt (160 # code_units ''17'') = Fin 17"
  by (simp add: parseInt_def parse_magnitude_def code_units_def is_StrWhiteSpaceChar_def
      is_digit_in_def digit_value_def digits_value_def)

lemma parseInt_2_53_1: "parseInt (code_units ''9007199254740993'') = Fin 9007199254740992"
  by (simp add: parseInt_def parse_magnitude_def code_units_def is_StrWhiteSpaceChar_def
      is_digit_in_def digit_value_def digits_value_def to_double_2_53_1)

lemma GET_env0_abc:
  "GET env0 request_abc initial_state
     = (Inr \<lparr>body = Predictions (batch_17\<lparr>r_hour := NaN, r_day := Fin 1\<rparr>), status = 200\<rparr>,
        state_loaded)"
  by (simp add: eval_defs batch_17_def state_loaded_def)

text \<open>
  C7, as amended: in every successful batch the resolved hour (and likewise the day)
  is the time provider's current value when the query value is absent or empty, and is
  \<open>parseInt\<close> of the query value whenever that value is present and not empty, that is:
  after leading white space and an optional sign, the Number nearest to the integer
  that the decimal digits denote (or, after \<open>0x\<close>, the hexadecimal digits), read up to
  the first character that is not a digit; and \<open>NaN\<close>, not the time provider's value,
  when no digit stands there. Integers below \<open>2^53\<close> are their own nearest Number.
\<close>

theorem resolved_time:
  assumes "GET env request st = (Inr \<lparr>body = Predictions resp, status = 200\<rparr>, st')"
  shows "r_hour resp = custom_or_current (searchParams request ''hour'')
                          (timeInfo_hour (getCurrentTimeInfo env))
       \<and> r_day resp = custom_or_current (searchParams request ''day'')
                          (timeInfo_day (getCurrentTimeInfo env))
       \<and> (\<forall>current. custom_or_current None current = current
                    \<and> custom_or_current (Some []) current = current)
       \<and> (\<forall>s current. s \<noteq> [] \<longrightarrow> custom_or_current (Some s) current = parseInt s)
       \<and> (\<forall>ws sg ds rest.
             (\<forall>c\<in>set ws. is_StrWhiteSpaceChar c) \<and> sg \<in> {[], [43], [45]}
             \<and> ds \<noteq> [] \<and> (\<forall>c\<in>set ds. 48 \<le> c \<and> c \<le> 57)
             \<and> (rest = [] \<or> \<not> (48 \<le> hd rest \<and> hd rest \<le> 57))
             \<and> \<not> (ds = [48] \<and> rest \<noteq> [] \<and> hd rest \<in> {120, 88}) \<longrightarrow>
             parseInt (ws @ sg @ ds @ rest)
               = to_double (of_int (sign_of sg * int (digits_value 10 ds))))
       \<and> (\<forall>ws sg x hs rest.
             (\<forall>c\<in>set ws. is_StrWhiteSpaceChar c) \<and> sg \<in> {[], [43], [45]}
             \<and> (x = 120 \<or> x = 88) \<and> (\<forall>c\<in>set hs. is_digit_in 16 c)
             \<and> (rest = [] \<or> \<not> is_digit_in 16 (hd rest)) \<longrightarrow>
             parseInt (ws @ sg @ [48, x] @ hs @ rest)
               = (if hs = [] then NaN
                  else to_double (of_int (sign_of sg * int (digits_value 16 hs)))))
       \<and> (\<forall>ws sg u.
             (\<forall>c\<in>set ws. is_StrWhiteSpaceChar c) \<and> sg \<in> {[], [43], [45]}
             \<and> (u = [] \<or> (\<not> (48 \<le> hd u \<and> hd u \<le> 57)
                    \<and> (sg = [] \<longrightarrow> \<not> is_StrWhiteSpaceChar (hd u) \<and> hd u \<noteq> 43 \<and> hd u \<noteq> 45)))
             \<longrightarrow> parseInt (ws @ sg @ u) = NaN)
       \<and> (\<forall>R. digits_value R [] = 0)
       \<and> (\<forall>R ds c v. digit_value c = Some v \<longrightarrow>
             digits_value R (ds @ [c]) = digits_value R ds * R + v)
       \<and> (\<forall>c. digit_value c
               = (if 48 \<le> c \<and> c \<le> 57 then Some (c - 48)
                  else if 97 \<le> c \<and> c \<le> 122 then Some (c - 87)
                  else if 65 \<le> c \<and> c \<le> 90 then Some (c - 55) else None))
       \<and> (\<forall>m::int. \<bar>m\<bar> < 2 ^ 53 \<longrightarrow> to_double (of_int m) = Fin (of_int m))
       \<and> sign_of [] = 1 \<and> sign_of [43] = 1 \<and> sign_of [45] = - 1
       \<and> is_StrWhiteSpaceChar 32 \<and> is_StrWhiteSpaceChar 9 \<and> is_StrWhiteSpaceChar 160
       \<and> parseInt (code_units ''17'') = Fin 17
       \<and> parseInt (code_units ''12abc'') = Fin 12
       \<and> parseInt (code_units ''  -0x1F'') = Fin (- 31)
       \<and> parseInt (160 # code_units ''17'') = Fin 17
       \<and> parseInt (code_units ''9007199254740993'') = Fin 9007199254740992
       \<and> parseInt (code_units ''abc'') = NaN"
proof -
  from GET_success[OF assms]
  have h: "r_hour resp = custom_or_current (searchParams request ''hour'')
                          (timeInfo_hour (getCurrentTimeInfo env))"
    and d: "r_day resp = custom_or_current (searchParams request ''day'')
                          (timeInfo_day (getCurrentTimeInfo env))"
    by (auto simp add: resolved_hour_def resolved_day_def)
  have e: "\<forall>current. custom_or_current None current = current
                    \<and> custom_or_current (Some []) current = current"
    by (simp add: custom_or_current_def)
  have p: "\<forall>s current. s \<noteq> [] \<longrightarrow> custom_or_current (Some s) current = parseInt s"
    by (simp add: custom_or_current_def)
  have dec: "\<forall>ws sg ds rest.
             (\<forall>c\<in>set ws. is_StrWhiteSpaceChar c) \<and> sg \<in> {[], [43], [45]}
             \<and> ds \<noteq> [] \<and> (\<forall>c\<in>set ds. 48 \<le> c \<and> c \<le> 57)
             \<and> (rest = [] \<or> \<not> (48 \<le> hd rest \<and> hd rest \<le> 57))
             \<and> \<not> (ds = [48] \<and> rest \<noteq> [] \<and> hd rest \<in> {120, 88}) \<longrightarrow>
             parseInt (ws @ sg @ ds @ rest)
               = to_double (of_int (sign_of sg * int (digits_value 10 ds)))"
    using parseInt_decimal unfolding digit10_code by blast
  have hex: "\<forall>ws sg x hs rest.
             (\<forall>c\<in>set ws. is_StrWhiteSpaceChar c) \<and> sg \<in> {[], [43], [45]}
             \<and> (x = 120 \<or> x = 88) \<and> (\<forall>c\<in>set hs. is_digit_in 16 c)
             \<and> (rest = [] \<or> \<not> is_digit_in 16 (hd rest)) \<longrightarrow>
             parseInt (ws @ sg @ [48, x] @ hs @ rest)
               = (if hs = [] then NaN
                  else to_double (of_int (sign_of sg * int (digits_value 16 hs))))"
    using parseInt_hex by blast
  have nan: "\<forall>ws sg u.
             (\<forall>c\<in>set ws. is_StrWhiteSpaceChar c) \<and> sg \<in> {[], [43], [45]}
             \<and> (u = [] \<or> (\<not> (48 \<le> hd u \<and> hd u \<le> 57)
                    \<and> (sg = [] \<longrightarrow> \<not> is_StrWhiteSpaceChar (hd u) \<and> hd u \<noteq> 43 \<and> hd u \<noteq> 45)))
             \<longrightarrow> parseInt (ws @ sg @ u) = NaN"
    using parseInt_no_digit unfolding digit10_code by blast
  have v0: "\<forall>R. digits_value R [] = 0" by (simp add: digits_value_def)
  have vs: "\<forall>R ds c v. digit_value c = Some v \<longrightarrow>
             digits_value R (ds @ [c]) = digits_value R ds * R + v"
    using digits_value_snoc by blast
  have dv: "\<forall>c. digit_value c
               = (if 48 \<le> c \<and> c \<le> 57 then Some (c - 48)
                  else if 97 \<le> c \<and> c \<le> 122 then Some (c - 87)
                  else if 65 \<le> c \<and> c \<le> 90 then Some (c - 55) else None)"
    by (simp add: digit_value_def)
  have td: "\<forall>m::int. \<bar>m\<bar> < 2 ^ 53 \<longrightarrow> to_double (of_int m) = Fin (of_int m)"
    using to_double_int by blast
  have sg: "sign_of [] = 1" "sign_of [43] = 1" "sign_of [45] = - 1"
    by (simp_all add: sign_of_def)
  have ws: "is_StrWhiteSpaceChar 32" "is_StrWhiteSpaceChar 9" "is_StrWhiteSpaceChar 160"
    by (simp_all add: is_StrWhiteSpaceChar_def)
  show ?thesis
    by (intro conjI h d e p dec hex nan v0 vs dv td sg ws parseInt_17 parseInt_12abc
        parseInt_minus_hex parseInt_nbsp_17 parseInt_2_53_1 parseInt_abc)
qed

theorem resolved_time_witness:
  "GET env0 request_17 initial_state
     = (Inr \<lparr>body = Predictions batch_17, status = 200\<rparr>, state_loaded)
   \<and> searchParams request_17 ''hour'' = Some (code_units ''17'')
   \<and> code_units ''17'' = [] @ [] @ [49, 55] @ []
   \<and> digits_value 10 [49, 55] = 17
   \<and> r_hour batch_17 = Fin 17
   \<and> searchParams request_17 ''day'' = Some (code_units ''3'')
   \<and> r_day batch_17 = Fin 3
   \<and> code_units ''  -0x1F'' = [32, 32] @ [45] @ [48, 120] @ [49, 70] @ []
   \<and> digits_value 16 [49, 70] = 31
   \<and> parseInt (code_units ''  -0x1F'') = Fin (- 31)
   \<and> code_units ''abc'' = [] @ [] @ [97, 98, 99]
   \<and> parseInt (code_units ''abc'') = NaN"
proof -
  have h: "searchParams request_17 ''hour'' = Some (code_units ''17'')"
    and d: "searchParams request_17 ''day'' = Some (code_units ''3'')"
    by (simp_all add: request_17_def)
  have rh: "r_hour batch_17 = Fin 17" and rd: "r_day batch_17 = Fin 3"
    by (simp_all add: batch_17_def)
  have c1: "code_units ''17'' = [] @ [] @ [49, 55] @ []"
    and c2: "code_units ''  -0x1F'' = [32, 32] @ [45] @ [48, 120] @ [49, 70] @ []"
    and c3: "code_units ''abc'' = [] @ [] @ [97, 98, 99]"
    by (simp_all add: code_units_def)
  have v1: "digits_value 10 [49, 55] = 17" and v2: "digits_value 16 [49, 70] = 31"
    by (simp_all add: digits_value_def digit_value_def)
  show ?thesis
    using resolved_time[OF GET_env0_17]
    by (intro conjI GET_env0_17 h d rh rd c1 c2 c3 v1 v2 parseInt_minus_hex parseInt_abc)
qed

text \<open>
  The query \<open>hour=abc\<close> is present and does not parse as an integer; the batch then
  reports the hour \<open>NaN\<close>, while the time provider's hour is 9.
\<close>

theorem resolved_time_counterexample:
  "searchParams request_abc ''hour'' = Some (code_units ''abc'')
   \<and> parseInt (code_units ''abc'') = NaN
   \<and> r_hour (batch (body (projr (fst (GET env0 request_abc initial_state))))) = NaN
   \<and> timeInfo_hour (getCurrentTimeInfo env0) = Fin 9"
proof (intro conjI)
  show "searchParams request_abc ''hour'' = Some (code_units ''abc'')"
    by (simp add: request_abc_def)
  show "parseInt (code_units ''abc'') = NaN" by (rule parseInt_abc)
  show "r_hour (batch (body (projr (fst (GET env0 request_abc initial_state))))) = NaN"
    by (simp add: GET_env0_abc)
  show "timeInfo_hour (getCurrentTimeInfo env0) = Fin 9" by (simp add: env0_def)
qed


section \<open>The aggregation of the two results\<close>

text \<open>A congestion returned by \<open>runInference\<close> is a finite number or \<open>NaN\<close>.\<close>

lemma decode_congestion_cases:
  "congestion (decode out) = NaN \<or> (\<exists>a. congestion (decode out) = Fin a)"
proof (cases "3 \<le> length out")
  case True
  then show ?thesis by (auto simp add: decode_def split: prod.splits)
next
  case False
  then show ?thesis
    by (cases "getVal out 0") (auto simp add: decode_def Math_max_def Math_min_def)
qed

lemma runInference_congestion_cases:
  assumes "runInference session inputData = Inr r"
  shows "congestion r = NaN \<or> (\<exists>a. congestion r = Fin a)"
proof (cases "session_output session inputData")
  case (Inl e)
  from runInference_caught[OF this] assms show ?thesis by auto
next
  case (Inr out)
  from runInference_decode[OF this] assms decode_congestion_cases[of out] show ?thesis by auto
qed

text \<open>
  C1, as amended: in a successful batch, for the location at every index \<open>i\<close>, both
  models ran on the feature vector of that location, giving the results \<open>r1\<close> (stage 1)
  and \<open>r2\<close> (stage 2), each with a congestion that is a number or \<open>NaN\<close>. When both
  congestions are numbers, the prediction carries the maximum of the two, never a lower
  one, with the probability of the result that has it, the first result when the two are
  equal. When the congestion of either result is \<open>NaN\<close>, the prediction carries the
  congestion and the probability of the first result.
\<close>

theorem prediction_is_max:
  assumes "GET env request st = (Inr \<lparr>body = Predictions resp, status = 200\<rparr>, st')"
    and "i < length (cameraLocations env)"
  shows "\<exists>s1 s2 r1 r2.
           stage1 (sessions st') = Some s1 \<and> stage2 (sessions st') = Some s2
         \<and> runInference s1 (feature_vector (cameraLocations env ! i)
                               (r_hour resp) (r_day resp) (r_weather resp)) = Inr r1
         \<and> runInference s2 (feature_vector (cameraLocations env ! i)
                               (r_hour resp) (r_day resp) (r_weather resp)) = Inr r2
         \<and> run_models (sessions st') (feature_vector (cameraLocations env ! i)
                               (r_hour resp) (r_day resp) (r_weather resp)) = Inr [r1, r2]
         \<and> (congestion r1 = NaN \<or> (\<exists>a. congestion r1 = Fin a))
         \<and> (congestion r2 = NaN \<or> (\<exists>b. congestion r2 = Fin b))
         \<and> (\<forall>a b. congestion r1 = Fin a \<and> congestion r2 = Fin b \<longrightarrow>
                p_congestion (r_predictions resp ! i) = Fin (max a b)
              \<and> p_probability (r_predictions resp ! i)
                  = (if a < b then probability r2 else probability r1))
         \<and> (congestion r1 = NaN \<or> congestion r2 = NaN \<longrightarrow>
                p_congestion (r_predictions resp ! i) = congestion r1
              \<and> p_probability (r_predictions resp ! i) = probability r1)"
proof -
  let ?x = "feature_vector (cameraLocations env ! i) (r_hour resp) (r_day resp) (r_weather resp)"
  let ?p = "r_predictions resp ! i"
  from GET_success[OF assms(1)] obtain ss where
    g: "getSessions env st = (Inr ss, st')" and
    l: "predict_loop ss (r_hour resp) (r_day resp) (r_weather resp) (cameraLocations env) []
          = Inr (r_predictions resp)"
    by auto
  from getSessions_success[OF g] obtain s1 s2 where
    ss: "sessions st' = ss" "stage1 ss = Some s1" "stage2 ss = Some s2" by blast
  from predict_loop_spec[OF l] assms(2)
  have p: "predict_location ss (r_hour resp) (r_day resp) (r_weather resp)
             (cameraLocations env ! i) = Inr ?p"
    by auto
  from run_models_both[OF ss(2,3), of ?x] obtain r1 r2 where
    r: "runInference s1 ?x = Inr r1" "runInference s2 ?x = Inr r2"
       "run_models ss ?x = Inr [r1, r2]" by blast
  have "predict_location ss (r_hour resp) (r_day resp) (r_weather resp) (cameraLocations env ! i)
          = Inr \<lparr>p_location = name (cameraLocations env ! i),
                 p_latitude = latitude (cameraLocations env ! i),
                 p_longitude = longitude (cameraLocations env ! i),
                 p_congestion = congestion (pick r1 r2),
                 p_congestionLabel = CONGESTION_LABELS (congestion (pick r1 r2)),
                 p_probability = probability (pick r1 r2)\<rparr>"
    using r(3) by (simp add: predict_location_def await_def reduce_def)
  with p have eq: "?p
          = \<lparr>p_location = name (cameraLocations env ! i),
             p_latitude = latitude (cameraLocations env ! i),
             p_longitude = longitude (cameraLocations env ! i),
             p_congestion = congestion (pick r1 r2),
             p_congestionLabel = CONGESTION_LABELS (congestion (pick r1 r2)),
             p_probability = probability (pick r1 r2)\<rparr>"
    by simp
  have c: "p_congestion ?p = congestion (pick r1 r2)"
    and q: "p_probability ?p = probability (pick r1 r2)"
    unfolding eq by simp_all
  have c1: "congestion r1 = NaN \<or> (\<exists>a. congestion r1 = Fin a)"
    by (rule runInference_congestion_cases[OF r(1)])
  have c2: "congestion r2 = NaN \<or> (\<exists>b. congestion r2 = Fin b)"
    by (rule runInference_congestion_cases[OF r(2)])
  have num: "\<forall>a b. congestion r1 = Fin a \<and> congestion r2 = Fin b \<longrightarrow>
                p_congestion ?p = Fin (max a b)
              \<and> p_probability ?p = (if a < b then probability r2 else probability r1)"
    unfolding c q by (auto simp add: pick_def max_def)
  have nan: "congestion r1 = NaN \<or> congestion r2 = NaN \<longrightarrow>
                p_congestion ?p = congestion r1 \<and> p_probability ?p = probability r1"
    unfolding c q by (auto simp add: pick_def)
  show ?thesis
    using ss(2,3) r c1 c2 num nan unfolding ss(1)[symmetric]
    by (intro exI[of _ s1] exI[of _ s2] exI[of _ r1] exI[of _ r2] conjI) assumption+
qed

theorem prediction_is_max_witness:
  "GET env0 request_17 initial_state
     = (Inr \<lparr>body = Predictions batch_17, status = 200\<rparr>, state_loaded)
   \<and> (0::nat) < length (cameraLocations env0)
   \<and> runInference (const_session [Fin 0.1, Fin 0.7, Fin 0.2])
        (feature_vector (cameraLocations env0 ! 0) (Fin 17) (Fin 3) weather0)
        = Inr \<lparr>congestion = Fin 1, probability = Fin 0.7\<rparr>
   \<and> runInference (const_session [Fin 2.6])
        (feature_vector (cameraLocations env0 ! 0) (Fin 17) (Fin 3) weather0)
        = Inr \<lparr>congestion = Fin 2, probability = Fin 1\<rparr>
   \<and> p_congestion (r_predictions batch_17 ! 0) = Fin (max 1 2)
   \<and> p_probability (r_predictions batch_17 ! 0) = Fin 1"
proof -
  have n: "(0::nat) < length (cameraLocations env0)" by (simp add: env0_def)
  have a: "runInference (const_session [Fin 0.1, Fin 0.7, Fin 0.2])
        (feature_vector (cameraLocations env0 ! 0) (Fin 17) (Fin 3) weather0)
        = Inr \<lparr>congestion = Fin 1, probability = Fin 0.7\<rparr>"
    by (simp add: eval_defs)
  have b: "runInference (const_session [Fin 2.6])
        (feature_vector (cameraLocations env0 ! 0) (Fin 17) (Fin 3) weather0)
        = Inr \<lparr>congestion = Fin 2, probability = Fin 1\<rparr>"
    by (simp add: eval_defs)
  have c: "p_congestion (r_predictions batch_17 ! 0) = Fin (max 1 2)"
    and q: "p_probability (r_predictions batch_17 ! 0) = Fin 1"
    by (simp_all add: batch_17_def)
  show ?thesis
    using prediction_is_max[OF GET_env0_17 n]
    by (intro conjI GET_env0_17 n a b c q)
qed

lemma GET_env_nan:
  "GET env_nan request_17 initial_state
     = (Inr \<lparr>body = Predictions
                (batch_17\<lparr>r_predictions :=
                   [\<lparr>p_location = ''Saddar'', p_latitude = Fin 24.86, p_longitude = Fin 67.01,
                     p_congestion = NaN, p_congestionLabel = None, p_probability = Fin 1\<rparr>,
                    \<lparr>p_location = ''Clifton'', p_latitude = Fin 24.82, p_longitude = Fin 67.03,
                     p_congestion = NaN, p_congestionLabel = None, p_probability = Fin 1\<rparr>]\<rparr>),
             status = 200\<rparr>,
        \<lparr>sessions = \<lparr>stage1 = Some (const_session [NaN]),
                      stage2 = Some (const_session [Fin 2.6])\<rparr>,
         loads = 1\<rparr>)"
  by (simp add: eval_defs batch_17_def)

text \<open>
  A successful batch in which the first model answers \<open>NaN\<close> and the second answers
  2.6: the results of the first location have congestion \<open>NaN\<close> and 2 (High), and the
  prediction reports \<open>NaN\<close>, not 2.
\<close>

theorem prediction_is_max_counterexample:
  "status (projr (fst (GET env_nan request_17 initial_state))) = 200
   \<and> stage1 (sessions (snd (GET env_nan request_17 initial_state))) = Some (const_session [NaN])
   \<and> stage2 (sessions (snd (GET env_nan request_17 initial_state)))
       = Some (const_session [Fin 2.6])
   \<and> runInference (const_session [NaN])
        (feature_vector (cameraLocations env_nan ! 0) (Fin 17) (Fin 3) weather0)
        = Inr \<lparr>congestion = NaN, probability = Fin 1\<rparr>
   \<and> runInference (const_session [Fin 2.6])
        (feature_vector (cameraLocations env_nan ! 0) (Fin 17) (Fin 3) weather0)
        = Inr \<lparr>congestion = Fin 2, probability = Fin 1\<rparr>
   \<and> p_congestion
        (r_predictions (batch (body (projr (fst (GET env_nan request_17 initial_state))))) ! 0)
       = NaN"
proof (intro conjI)
  show "status (projr (fst (GET env_nan request_17 initial_state))) = 200"
    by (simp add: GET_env_nan)
  show "stage1 (sessions (snd (GET env_nan request_17 initial_state))) = Some (const_session [NaN])"
    by (simp add: GET_env_nan)
  show "stage2 (sessions (snd (GET env_nan request_17 initial_state)))
       = Some (const_session [Fin 2.6])"
    by (simp add: GET_env_nan)
  show "runInference (const_session [NaN])
        (feature_vector (cameraLocations env_nan ! 0) (Fin 17) (Fin 3) weather0)
        = Inr \<lparr>congestion = NaN, probability = Fin 1\<rparr>"
    by (simp add: eval_defs)
  show "runInference (const_session [Fin 2.6])
        (feature_vector (cameraLocations env_nan ! 0) (Fin 17) (Fin 3) weather0)
        = Inr \<lparr>congestion = Fin 2, probability = Fin 1\<rparr>"
    by (simp add: eval_defs)
  show "p_congestion
        (r_predictions (batch (body (projr (fst (GET env_nan request_17 initial_state))))) ! 0)
       = NaN"
    by (simp add: GET_env_nan batch_17_def)
qed

text \<open>On equal congestion the first result is kept, with its own probability.\<close>

lemma tie_keeps_first:
  "predict_location
     \<lparr>stage1 = Some (const_session [Fin 0.1, Fin 0.7, Fin 0.2]),
      stage2 = Some (const_session [Fin 1.2])\<rparr>
     (Fin 17) (Fin 3) weather0 \<lparr>name = ''Saddar'', latitude = Fin 24.86, longitude = Fin 67.01\<rparr>
   = Inr \<lparr>p_location = ''Saddar'', p_latitude = Fin 24.86, p_longitude = Fin 67.01,
          p_congestion = Fin 1, p_congestionLabel = Some ''Moderate'',
          p_probability = Fin 0.7\<rparr>"
  by (simp add: eval_defs)

section \<open>Failures of a batch\<close>

lemma predict_loop_some_fail:
  assumes "loc \<in> set locs" and "predict_location ss hour day weather loc = Inl e"
  shows "\<exists>e'. predict_loop ss hour day weather locs acc = Inl e'"
proof (cases "predict_loop ss hour day weather locs acc")
  case (Inl e')
  then show ?thesis by blast
next
  case (Inr ps)
  from predict_loop_spec[OF Inr] obtain ps' where
    "\<forall>i<length locs. predict_location ss hour day weather (locs ! i) = Inr (ps' ! i)" by blast
  moreover from assms(1) obtain i where "i < length locs" "locs ! i = loc"
    by (auto simp add: in_set_conv_nth)
  ultimately show ?thesis using assms(2) by auto
qed

lemma GET_weather_fail:
  "weather_call env request = Inl e \<Longrightarrow>
   GET env request st = (await (catch_details e) (\<lambda>d. Inr (error_response d)), st)"
  by (simp add: GET_def GET_try_def Let_def)

lemma GET_load_fail:
  assumes "weather_call env request = Inr w" and "fst (getSessions env st) = Inl e"
  shows "GET env request st
           = (await (catch_details e) (\<lambda>d. Inr (error_response d)), snd (getSessions env st))"
  using assms by (cases "getSessions env st") (simp add: GET_def GET_try_def Let_def)

text \<open>
  What \<open>GET\<close> returns: the outcome of the \<open>catch\<close> block for some thrown value, or a
  batch with one prediction for each configured location.
\<close>

lemma GET_shape:
  "(\<exists>e. fst (GET env request st) = await (catch_details e) (\<lambda>d. Inr (error_response d)))
   \<or> (\<exists>resp. fst (GET env request st) = Inr \<lparr>body = Predictions resp, status = 200\<rparr>
         \<and> length (r_predictions resp) = length (cameraLocations env))"
proof (cases "GET_try env request st")
  case (Pair res st')
  show ?thesis
  proof (cases res)
    case (Inl e)
    with Pair
    have "fst (GET env request st) = await (catch_details e) (\<lambda>d. Inr (error_response d))"
      by (simp add: GET_def)
    then show ?thesis by blast
  next
    case (Inr resp)
    with Pair have g: "GET env request st = (Inr \<lparr>body = Predictions resp, status = 200\<rparr>, st')"
      by (simp add: GET_def)
    from GET_success[OF g] obtain ss where
      "predict_loop ss (resolved_hour env request) (resolved_day env request)
         (r_weather resp) (cameraLocations env) [] = Inr (r_predictions resp)" by blast
    from predict_loop_spec[OF this]
    have "length (r_predictions resp) = length (cameraLocations env)" by auto
    with g show ?thesis by simp
  qed
qed

text \<open>
  The details that the \<open>catch\<close> block reports: the message of an \<open>Error\<close>, its string
  form when the message is empty, and the string form of any other value but \<open>null\<close>
  and \<open>undefined\<close>, on which reading \<open>message\<close> throws.
\<close>

lemma catch_details_examples:
  "catch_details (Exn ''Error'' ''No models loaded'') = Inr ''No models loaded''"
  "catch_details (Exn ''Error'' []) = Inr ''Error''"
  "catch_details (Exn ''RangeError'' []) = Inr ''RangeError''"
  "catch_details (Exn [] []) = Inr []"
  "catch_details (Thrown_value ''12345'') = Inr ''12345''"
  "catch_details Thrown_null = Inl (Exn ''TypeError'' ''Cannot read properties of null'')"
  "catch_details Thrown_undefined
     = Inl (Exn ''TypeError'' ''Cannot read properties of undefined'')"
  by simp_all

lemma catch_details_structured:
  "e \<noteq> Thrown_null \<Longrightarrow> e \<noteq> Thrown_undefined \<Longrightarrow> \<exists>d. catch_details e = Inr d"
  by (cases e) simp_all

text \<open>
  A batch-level failure with a thrown value other than \<open>null\<close> and \<open>undefined\<close> is
  answered with status 500, the generic message and the details of that value, whether
  the weather provider fails, an artifact load fails, or the loop throws.
\<close>

lemma GET_structured_error:
  assumes "GET_try env request st = (Inl e, st')"
    and "e \<noteq> Thrown_null" and "e \<noteq> Thrown_undefined"
  shows "\<exists>d. catch_details e = Inr d
           \<and> GET env request st
               = (Inr \<lparr>body = ErrorBody ''Failed to generate predictions'' d, status = 500\<rparr>, st')"
proof -
  from catch_details_structured[OF assms(2,3)] obtain d where d: "catch_details e = Inr d"
    by blast
  with GET_failure[OF assms(1)] show ?thesis by (simp add: await_def error_response_def)
qed

lemma weather_call_no_weather:
  "weather_call env_no_weather request_17 = Inl (Exn ''Error'' ''Weather API error'')"
  by (simp add: weather_call_def env_no_weather_def env0_def)

lemma weather_call_no_models: "weather_call env_no_models request_17 = Inr weather0"
  by (simp add: weather_call_def env_no_models_def env0_def)

lemma weather_call_undefined:
  "weather_call env_weather_undefined request_17 = Inl Thrown_undefined"
  by (simp add: weather_call_def env_weather_undefined_def env0_def)

lemma getSessions_no_models:
  "getSessions env_no_models initial_state
     = (Inl (Exn ''Error'' ''ENOENT: no such file''),
        \<lparr>sessions = \<lparr>stage1 = None, stage2 = None\<rparr>, loads = 1\<rparr>)"
  by (simp add: getSessions_def Promise_all2_def env_no_models_def env0_def initial_state_def)

lemma GET_no_weather:
  "GET env_no_weather request_17 initial_state
     = (Inr \<lparr>body = ErrorBody ''Failed to generate predictions'' ''Weather API error'',
              status = 500\<rparr>,
        initial_state)"
  by (simp add: GET_weather_fail[OF weather_call_no_weather] error_response_def await_def)

lemma GET_no_models:
  "GET env_no_models request_17 initial_state
     = (Inr \<lparr>body = ErrorBody ''Failed to generate predictions'' ''ENOENT: no such file'',
              status = 500\<rparr>,
        \<lparr>sessions = \<lparr>stage1 = None, stage2 = None\<rparr>, loads = 1\<rparr>)"
  using GET_load_fail[OF weather_call_no_models, of initial_state
      "Exn ''Error'' ''ENOENT: no such file''"]
  by (simp add: getSessions_no_models error_response_def await_def)

lemma no_models_abort:
  "predict_loop \<lparr>stage1 = None, stage2 = None\<rparr> (Fin 17) (Fin 3) weather0
     (cameraLocations env0) [] = Inl (Exn ''Error'' ''No models loaded'')"
  by (simp add: env0_def predict_location_no_models)

text \<open>
  C9 does not hold of the code at this input: the weather provider rejects with
  \<open>undefined\<close>, a batch-level failure; the \<open>catch\<close> block of \<open>GET\<close> then throws a
  \<open>TypeError\<close> while reading \<open>err.message\<close>, so that the promise of \<open>GET\<close> is rejected
  and no error response, structured or not, is produced. The same failure with an
  \<open>Error\<close> object is answered with status 500, the generic message and the message of
  the error.
\<close>

theorem batch_failure_unhandled:
  "weather_call env_weather_undefined request_17 = Inl Thrown_undefined
   \<and> GET env_weather_undefined request_17 initial_state
       = (Inl (Exn ''TypeError'' ''Cannot read properties of undefined''), initial_state)
   \<and> weather_call env_no_weather request_17 = Inl (Exn ''Error'' ''Weather API error'')
   \<and> GET env_no_weather request_17 initial_state
       = (Inr \<lparr>body = ErrorBody ''Failed to generate predictions'' ''Weather API error'',
                status = 500\<rparr>,
          initial_state)"
proof (intro conjI)
  show "weather_call env_weather_undefined request_17 = Inl Thrown_undefined"
    by (rule weather_call_undefined)
  show "GET env_weather_undefined request_17 initial_state
       = (Inl (Exn ''TypeError'' ''Cannot read properties of undefined''), initial_state)"
    by (simp add: GET_weather_fail[OF weather_call_undefined] await_def)
  show "weather_call env_no_weather request_17 = Inl (Exn ''Error'' ''Weather API error'')"
    by (rule weather_call_no_weather)
  show "GET env_no_weather request_17 initial_state
       = (Inr \<lparr>body = ErrorBody ''Failed to generate predictions'' ''Weather API error'',
                status = 500\<rparr>,
          initial_state)"
    by (rule GET_no_weather)
qed

section \<open>The session cache across requests\<close>

text \<open>
  C10: when \<open>getSessions\<close> returns without error, both handles are present, the
  results of every location are exactly two, the loop body and the loop never throw (so
  \<open>No models loaded\<close> cannot occur), and a request whose weather call succeeds is
  answered with status 200.
\<close>

theorem acquired_sessions_both_run:
  assumes "getSessions env st = (Inr ss, st')"
  shows "(\<exists>s1 s2. stage1 ss = Some s1 \<and> stage2 ss = Some s2)
       \<and> (\<forall>inputData. \<exists>r1 r2. run_models ss inputData = Inr [r1, r2])
       \<and> (\<forall>hour day weather location.
             \<exists>p. predict_location ss hour day weather location = Inr p)
       \<and> (\<forall>hour day weather locs.
             \<exists>ps. predict_loop ss hour day weather locs [] = Inr ps \<and> length ps = length locs)
       \<and> (\<forall>request w. weather_call env request = Inr w \<longrightarrow>
             (\<exists>r. fst (GET env request st) = Inr r \<and> status r = 200))"
proof -
  from getSessions_success[OF assms] obtain s1 s2 where
    ss: "stage1 ss = Some s1" "stage2 ss = Some s2" by blast
  have a: "\<exists>s1 s2. stage1 ss = Some s1 \<and> stage2 ss = Some s2" using ss by blast
  have b: "\<forall>inputData. \<exists>r1 r2. run_models ss inputData = Inr [r1, r2]"
    using run_models_both[OF ss] by blast
  have c: "\<forall>hour day weather location.
             \<exists>p. predict_location ss hour day weather location = Inr p"
    using predict_location_both[OF ss] by blast
  have d: "\<forall>hour day weather locs.
             \<exists>ps. predict_loop ss hour day weather locs [] = Inr ps \<and> length ps = length locs"
  proof (intro allI)
    fix hour day weather locs
    from c have "\<forall>loc\<in>set locs. \<exists>p. predict_location ss hour day weather loc = Inr p" by blast
    from predict_loop_all_ok[OF this] obtain ps
      where ps: "predict_loop ss hour day weather locs [] = Inr ps" by blast
    from predict_loop_spec[OF ps] have "length ps = length locs" by auto
    with ps show "\<exists>ps. predict_loop ss hour day weather locs [] = Inr ps \<and> length ps = length locs"
      by blast
  qed
  have e: "\<forall>request w. weather_call env request = Inr w \<longrightarrow>
             (\<exists>r. fst (GET env request st) = Inr r \<and> status r = 200)"
  proof (intro allI impI)
    fix request w assume w: "weather_call env request = Inr w"
    from d obtain ps where "predict_loop ss (resolved_hour env request) (resolved_day env request)
        w (cameraLocations env) [] = Inr ps" by blast
    with w assms show "\<exists>r. fst (GET env request st) = Inr r \<and> status r = 200"
      by (simp add: GET_def GET_try_def Let_def)
  qed
  from a b c d e show ?thesis by (intro conjI)
qed

lemma getSessions_env0:
  "getSessions env0 initial_state = (Inr (sessions state_loaded), state_loaded)"
  by (simp add: getSessions_def Promise_all2_def env0_def initial_state_def state_loaded_def
      modelPath1_def modelPath2_def join_slash_def)

theorem acquired_sessions_both_run_witness:
  "getSessions env0 initial_state = (Inr (sessions state_loaded), state_loaded)
   \<and> stage1 (sessions state_loaded) = Some (const_session [Fin 0.1, Fin 0.7, Fin 0.2])
   \<and> stage2 (sessions state_loaded) = Some (const_session [Fin 2.6])
   \<and> weather_call env0 request_17 = Inr weather0
   \<and> (\<exists>r. fst (GET env0 request_17 initial_state) = Inr r \<and> status r = 200)"
proof -
  have a: "stage1 (sessions state_loaded) = Some (const_session [Fin 0.1, Fin 0.7, Fin 0.2])"
    and b: "stage2 (sessions state_loaded) = Some (const_session [Fin 2.6])"
    by (simp_all add: state_loaded_def)
  have w: "weather_call env0 request_17 = Inr weather0"
    by (simp add: weather_call_def env0_def)
  have s: "(\<exists>r. fst (GET env0 request_17 initial_state) = Inr r \<and> status r = 200)"
    by (simp add: GET_env0_17)
  show ?thesis
    using acquired_sessions_both_run[OF getSessions_env0]
    by (intro conjI getSessions_env0 a b w s)
qed

lemma getSessions_keeps_all_or_nothing:
  "all_or_nothing (sessions st) \<Longrightarrow> all_or_nothing (sessions (snd (getSessions env st)))"
  by (auto simp add: getSessions_def all_or_nothing_def Let_def split: sum.splits prod.splits)

lemma GET_state_cases:
  "snd (GET env request st) = st \<or> snd (GET env request st) = snd (getSessions env st)"
  by (cases "getSessions env st")
     (auto simp add: GET_def GET_try_def Let_def split: sum.splits prod.splits)

lemma reachable_all_or_nothing: "reachable st \<Longrightarrow> all_or_nothing (sessions st)"
proof (induction rule: reachable.induct)
  case initial
  show ?case by (simp add: initial_state_def all_or_nothing_def)
next
  case (acquire st env)
  then show ?case by (simp add: getSessions_keeps_all_or_nothing)
next
  case (request st env request)
  from GET_state_cases[of env request st] request.IH show ?case
    by (auto simp add: getSessions_keeps_all_or_nothing)
qed

lemma getSessions_empty_loads:
  "stage1 (sessions st) = None \<Longrightarrow> loads (snd (getSessions env st)) = loads st + 1"
  by (auto simp add: getSessions_def Let_def split: sum.splits prod.splits)

lemma getSessions_load_fails:
  "stage1 (sessions st) = None \<Longrightarrow> load_fails env \<Longrightarrow> \<exists>e. fst (getSessions env st) = Inl e"
  by (auto simp add: getSessions_def load_fails_def Promise_all2_def Let_def isl_def
      split: sum.splits prod.splits)

lemma getSessions_failure_keeps_cache:
  assumes "fst (getSessions env st) = Inl e"
  shows "sessions (snd (getSessions env st)) = sessions st"
    and "stage1 (sessions st) = None \<or> stage2 (sessions st) = None"
    and "loads (snd (getSessions env st)) = loads st + 1"
    and "readFile env (modelPath1 env) = Inl e \<or> readFile env (modelPath2 env) = Inl e
         \<or> (\<exists>b. InferenceSession_create env b = Inl e)"
proof -
  obtain st' where g: "getSessions env st = (Inl e, st')"
    using assms by (cases "getSessions env st") simp
  from getSessions_failure[OF g] g
  show "sessions (snd (getSessions env st)) = sessions st"
    and "loads (snd (getSessions env st)) = loads st + 1"
    and "readFile env (modelPath1 env) = Inl e \<or> readFile env (modelPath2 env) = Inl e
         \<or> (\<exists>b. InferenceSession_create env b = Inl e)"
    by simp_all
  from g show "stage1 (sessions st) = None \<or> stage2 (sessions st) = None"
    by (auto simp add: getSessions_def split: if_splits)
qed

lemma GET_ok_resident:
  assumes "\<exists>r. fst (GET env request st) = Inr r \<and> status r = 200"
  shows "\<exists>s1 s2. stage1 (sessions (snd (GET env request st))) = Some s1
               \<and> stage2 (sessions (snd (GET env request st))) = Some s2"
proof -
  obtain res st' where t: "GET_try env request st = (res, st')"
    by (cases "GET_try env request st")
  show ?thesis
  proof (cases res)
    case (Inl e)
    with t assms show ?thesis
      by (cases "catch_details e") (auto simp add: GET_def error_response_def await_def)
  next
    case (Inr resp)
    with t have g: "GET env request st = (Inr \<lparr>body = Predictions resp, status = 200\<rparr>, st')"
      by (simp add: GET_def)
    from GET_success[OF g] obtain ss where "getSessions env st = (Inr ss, st')" by blast
    from getSessions_success[OF this] g show ?thesis by auto
  qed
qed

lemma GET_resident_noop:
  assumes "stage1 (sessions st) = Some s1" and "stage2 (sessions st) = Some s2"
  shows "snd (GET env request st) = st"
  using GET_state_cases[of env request st] getSessions_resident[OF assms, of env] by auto

lemma GET_loads_le: "loads (snd (GET env request st)) \<le> loads st + 1"
proof -
  have "loads (snd (getSessions env st)) \<le> loads st + 1"
    by (auto simp add: getSessions_def Let_def split: sum.splits prod.splits)
  with GET_state_cases[of env request st] show ?thesis by auto
qed

text \<open>
  C5: in every reachable state the cache holds both handles or none. From such a
  state, a failing \<open>getSessions\<close> leaves the cache empty and fails with the error of one
  of the loads, and the next call attempts the loads again; with an empty cache, a
  failing file read or session creation makes the whole acquisition fail; with the
  handles resident, \<open>getSessions\<close> returns them and changes nothing, so no load is
  attempted; and after a successful request any further request leaves the state, and
  with it the number of load attempts, as it is: two successful requests in sequence
  load the artifacts at most once.
\<close>

theorem cache_all_or_nothing:
  assumes "reachable st"
  shows "all_or_nothing (sessions st)
       \<and> (\<forall>e. fst (getSessions env st) = Inl e \<longrightarrow>
              sessions (snd (getSessions env st)) = \<lparr>stage1 = None, stage2 = None\<rparr>
              \<and> (readFile env (modelPath1 env) = Inl e \<or> readFile env (modelPath2 env) = Inl e
                 \<or> (\<exists>b. InferenceSession_create env b = Inl e))
              \<and> (\<forall>env2. loads (snd (getSessions env2 (snd (getSessions env st)))) = loads st + 2))
       \<and> (stage1 (sessions st) = None \<and> load_fails env \<longrightarrow>
              (\<exists>e. fst (getSessions env st) = Inl e))
       \<and> (stage1 (sessions st) \<noteq> None \<longrightarrow> getSessions env st = (Inr (sessions st), st))
       \<and> (\<forall>request env2 request2.
              (\<exists>r. fst (GET env request st) = Inr r \<and> status r = 200) \<longrightarrow>
              snd (GET env2 request2 (snd (GET env request st))) = snd (GET env request st)
              \<and> loads (snd (GET env2 request2 (snd (GET env request st))))
                  = loads (snd (GET env request st))
              \<and> loads (snd (GET env request st)) \<le> loads st + 1)"
proof -
  have inv: "all_or_nothing (sessions st)" by (rule reachable_all_or_nothing[OF assms])
  have fail: "\<forall>e. fst (getSessions env st) = Inl e \<longrightarrow>
              sessions (snd (getSessions env st)) = \<lparr>stage1 = None, stage2 = None\<rparr>
              \<and> (readFile env (modelPath1 env) = Inl e \<or> readFile env (modelPath2 env) = Inl e
                 \<or> (\<exists>b. InferenceSession_create env b = Inl e))
              \<and> (\<forall>env2. loads (snd (getSessions env2 (snd (getSessions env st)))) = loads st + 2)"
  proof (intro allI impI conjI)
    fix e assume f: "fst (getSessions env st) = Inl e"
    from getSessions_failure_keeps_cache(2)[OF f] inv
    have none: "stage1 (sessions st) = None" "stage2 (sessions st) = None"
      by (auto simp add: all_or_nothing_def)
    then have empty: "sessions st = \<lparr>stage1 = None, stage2 = None\<rparr>" by (cases "sessions st") simp
    with getSessions_failure_keeps_cache(1)[OF f]
    show "sessions (snd (getSessions env st)) = \<lparr>stage1 = None, stage2 = None\<rparr>" by simp
    show "readFile env (modelPath1 env) = Inl e \<or> readFile env (modelPath2 env) = Inl e
            \<or> (\<exists>b. InferenceSession_create env b = Inl e)"
      by (rule getSessions_failure_keeps_cache(4)[OF f])
    fix env2
    have "stage1 (sessions (snd (getSessions env st))) = None"
      using getSessions_failure_keeps_cache(1)[OF f] none by simp
    from getSessions_empty_loads[OF this, of env2] getSessions_failure_keeps_cache(3)[OF f]
    show "loads (snd (getSessions env2 (snd (getSessions env st)))) = loads st + 2" by simp
  qed
  have either: "stage1 (sessions st) = None \<and> load_fails env \<longrightarrow>
              (\<exists>e. fst (getSessions env st) = Inl e)"
    using getSessions_load_fails by blast
  have resident: "stage1 (sessions st) \<noteq> None \<longrightarrow> getSessions env st = (Inr (sessions st), st)"
  proof
    assume "stage1 (sessions st) \<noteq> None"
    with inv obtain s1 s2 where "stage1 (sessions st) = Some s1" "stage2 (sessions st) = Some s2"
      by (auto simp add: all_or_nothing_def)
    then show "getSessions env st = (Inr (sessions st), st)" by (rule getSessions_resident)
  qed
  have twice: "\<forall>request env2 request2.
              (\<exists>r. fst (GET env request st) = Inr r \<and> status r = 200) \<longrightarrow>
              snd (GET env2 request2 (snd (GET env request st))) = snd (GET env request st)
              \<and> loads (snd (GET env2 request2 (snd (GET env request st))))
                  = loads (snd (GET env request st))
              \<and> loads (snd (GET env request st)) \<le> loads st + 1"
  proof (intro allI impI)
    fix request env2 request2
    assume ok: "\<exists>r. fst (GET env request st) = Inr r \<and> status r = 200"
    from GET_ok_resident[OF ok] obtain s1 s2 where
      "stage1 (sessions (snd (GET env request st))) = Some s1"
      "stage2 (sessions (snd (GET env request st))) = Some s2" by blast
    from GET_resident_noop[OF this]
    have "snd (GET env2 request2 (snd (GET env request st))) = snd (GET env request st)" .
    with GET_loads_le[of env request st]
    show "snd (GET env2 request2 (snd (GET env request st))) = snd (GET env request st)
              \<and> loads (snd (GET env2 request2 (snd (GET env request st))))
                  = loads (snd (GET env request st))
              \<and> loads (snd (GET env request st)) \<le> loads st + 1"
      by simp
  qed
  from inv fail either resident twice show ?thesis by (intro conjI)
qed

lemma load_fails_no_models: "load_fails env_no_models"
  by (simp add: load_fails_def env_no_models_def env0_def)

lemma GET_env0_plain_loaded: "snd (GET env0 request_plain state_loaded) = state_loaded"
  by (rule GET_resident_noop) (simp_all add: state_loaded_def)

theorem cache_all_or_nothing_witness:
  "reachable initial_state
   \<and> all_or_nothing (sessions initial_state)
   \<and> stage1 (sessions initial_state) = None
   \<and> load_fails env_no_models
   \<and> getSessions env_no_models initial_state
       = (Inl (Exn ''Error'' ''ENOENT: no such file''),
          \<lparr>sessions = \<lparr>stage1 = None, stage2 = None\<rparr>, loads = 1\<rparr>)
   \<and> (\<exists>r. fst (GET env0 request_17 initial_state) = Inr r \<and> status r = 200)
   \<and> snd (GET env0 request_17 initial_state) = state_loaded
   \<and> loads state_loaded = 1
   \<and> snd (GET env0 request_plain state_loaded) = state_loaded
   \<and> reachable state_loaded
   \<and> stage1 (sessions state_loaded) \<noteq> None
   \<and> getSessions env_no_models state_loaded = (Inr (sessions state_loaded), state_loaded)"
proof -
  have r: "reachable state_loaded"
    using reachable.request[OF reachable.initial, of env0 request_17] by (simp add: GET_env0_17)
  have n: "stage1 (sessions state_loaded) \<noteq> None" by (simp add: state_loaded_def)
  have g: "getSessions env_no_models state_loaded = (Inr (sessions state_loaded), state_loaded)"
    by (simp add: getSessions_def state_loaded_def)
  have a: "all_or_nothing (sessions initial_state)"
    and b: "stage1 (sessions initial_state) = None"
    by (simp_all add: initial_state_def all_or_nothing_def)
  have s: "(\<exists>r. fst (GET env0 request_17 initial_state) = Inr r \<and> status r = 200)"
    and t: "snd (GET env0 request_17 initial_state) = state_loaded"
    by (simp_all add: GET_env0_17)
  have l: "loads state_loaded = 1" by (simp add: state_loaded_def)
  show ?thesis
    using cache_all_or_nothing[OF reachable.initial, of env_no_models]
      cache_all_or_nothing[OF reachable.initial, of env0]
      cache_all_or_nothing[OF r, of env_no_models]
    by (intro conjI reachable.initial a b load_fails_no_models getSessions_no_models s t l
        GET_env0_plain_loaded r n g)
qed

end
